theory Spec2Isabelle
  imports Complex_Main "HOL-Library.Log_Nat"
begin

section \<open>Strings and numbers of the host language\<close>

text \<open>
  The two servers of the repository (\<^verbatim>\<open>src/index.ts\<close>, called variant A below, and the
  second \<^verbatim>\<open>index.ts\<close> with \<^verbatim>\<open>synoLogin\<close>, \<^verbatim>\<open>refreshSession\<close> and \<^verbatim>\<open>searchFiles\<close>, called
  variant B) are TypeScript programs. Strings are lists of characters; the only
  characters the functions below inspect are ASCII.
\<close>

definition startsWith :: "string \<Rightarrow> string \<Rightarrow> bool" where
  "startsWith s p = (take (length p) s = p)"

definition endsWith :: "string \<Rightarrow> string \<Rightarrow> bool" where
  "endsWith s p = (length p \<le> length s \<and> drop (length s - length p) s = p)"

definition digitChar :: "nat \<Rightarrow> char" where
  "digitChar d = ''0123456789'' ! d"

function showNat :: "nat \<Rightarrow> string" where
  "showNat n = (if n < 10 then [digitChar n] else showNat (n div 10) @ [digitChar (n mod 10)])"
  by pat_completeness auto
termination
  by (relation "measure id") auto

declare showNat.simps [simp del]

definition showInt :: "int \<Rightarrow> string" where
  "showInt i = (if i < 0 then CHR ''-'' # showNat (nat (- i)) else showNat (nat i))"

section \<open>Path utilities (variant B)\<close>

text \<open>
  \<^verbatim>\<open>formatSynoPath\<close>: prefix a slash when there is none, then remove one trailing slash
  unless the path is the root. \<^verbatim>\<open>slice(0, -1)\<close> drops the last character.
\<close>

definition formatSynoPath :: "string \<Rightarrow> string" where
  "formatSynoPath filePath =
     (let p1 = (if \<not> startsWith filePath ''/'' then ''/'' @ filePath else filePath)
      in if p1 \<noteq> ''/'' \<and> endsWith p1 ''/'' then take (length p1 - 1) p1 else p1)"

section \<open>Byte formatting (variant A)\<close>

text \<open>
  \<^verbatim>\<open>formatBytes(bytes, decimals = 2)\<close>. Every call site passes one argument, so \<open>dm\<close> is
  \<open>2\<close> unless the caller says otherwise. JavaScript computes
  \<^verbatim>\<open>Math.floor(Math.log(bytes) / Math.log(k))\<close> and \<^verbatim>\<open>bytes / Math.pow(k, i)\<close> in IEEE
  doubles; the model takes these operations as the exact mathematical ones on a
  non-negative integer \<open>bytes\<close>: the exponent is the integer logarithm to base \<open>1024\<close>
  (\<open>floorlog\<close> counts the digits, one more than the floor of the logarithm; lemma
  \<open>mathFloorLog_exact\<close> below), and \<^verbatim>\<open>toFixed(dm)\<close> rounds the exact quotient to \<open>dm\<close>
  decimals, a tie going up. \<^verbatim>\<open>parseFloat\<close> then drops the trailing zeros of the fraction.
  An index past the end of \<^verbatim>\<open>sizes\<close> reads \<^verbatim>\<open>undefined\<close>.
\<close>

definition sizes :: "string list" where
  "sizes = [''Bytes'', ''KB'', ''MB'', ''GB'', ''TB'', ''PB'', ''EB'', ''ZB'', ''YB'']"

definition mathFloorLog :: "nat \<Rightarrow> nat \<Rightarrow> nat" where
  "mathFloorLog k bytes = floorlog k bytes - 1"

definition padLeft :: "nat \<Rightarrow> string \<Rightarrow> string" where
  "padLeft w s = replicate (w - length s) CHR ''0'' @ s"

definition stripZeros :: "string \<Rightarrow> string" where
  "stripZeros s = rev (dropWhile (\<lambda>c. c = CHR ''0'') (rev s))"

definition showFixed :: "nat \<Rightarrow> nat \<Rightarrow> string" where
  "showFixed dm scaled =
     (let whole = showNat (scaled div 10 ^ dm);
          frac = stripZeros (padLeft dm (showNat (scaled mod 10 ^ dm)))
      in if dm = 0 \<or> frac = [] then whole else whole @ ''.'' @ frac)"

definition formatBytes :: "nat \<Rightarrow> int \<Rightarrow> string" where
  "formatBytes bytes decimals =
     (if bytes = 0 then ''0 Bytes''
      else
        (let k = 1024;
             dm = (if decimals < 0 then 0 else nat decimals);
             i = mathFloorLog k bytes;
             scaled = (2 * bytes * 10 ^ dm + k ^ i) div (2 * k ^ i)
         in showFixed dm scaled @ '' '' @
            (if i < length sizes then sizes ! i else ''undefined'')))"

section \<open>JSON values and JavaScript property access\<close>

text \<open>
  The body of a remote response is a JSON value; \<open>JUndefined\<close> is the value JavaScript
  gives for a missing property. Numbers are integers here (the code compares an error
  code with \<open>119\<close> and prints sizes; fractions are not modelled). An object is an
  association list in which the first binding of a key counts.
\<close>

datatype json =
    JUndefined
  | JNull
  | JBool bool
  | JNum int
  | JStr string
  | JArr "json list"
  | JObj "(string \<times> json) list"

datatype exn =
    Error string
  | TypeError string
  | AxiosError string

fun message :: "exn \<Rightarrow> string" where
  "message (Error m) = m"
| "message (TypeError m) = m"
| "message (AxiosError m) = m"

fun truthy :: "json \<Rightarrow> bool" where
  "truthy JUndefined = False"
| "truthy JNull = False"
| "truthy (JBool b) = b"
| "truthy (JNum n) = (n \<noteq> 0)"
| "truthy (JStr s) = (s \<noteq> [])"
| "truthy (JArr xs) = True"
| "truthy (JObj kvs) = True"

fun nullish :: "json \<Rightarrow> bool" where
  "nullish JUndefined = True"
| "nullish JNull = True"
| "nullish j = False"

text \<open>\<open>getMember j k\<close> is \<^verbatim>\<open>j.k\<close> for a value that is neither \<^verbatim>\<open>null\<close> nor \<^verbatim>\<open>undefined\<close>.\<close>

fun getMember :: "json \<Rightarrow> string \<Rightarrow> json" where
  "getMember (JObj kvs) k = (case map_of kvs k of None \<Rightarrow> JUndefined | Some v \<Rightarrow> v)"
| "getMember (JArr xs) k = (if k = ''length'' then JNum (int (length xs)) else JUndefined)"
| "getMember (JStr s) k = (if k = ''length'' then JNum (int (length s)) else JUndefined)"
| "getMember j k = JUndefined"

fun getIndex :: "json \<Rightarrow> nat \<Rightarrow> json" where
  "getIndex (JArr xs) i = (if i < length xs then xs ! i else JUndefined)"
| "getIndex j i = JUndefined"

definition cannotRead :: "json \<Rightarrow> string \<Rightarrow> exn" where
  "cannotRead j k =
     TypeError (''Cannot read properties of '' @ (if j = JNull then ''null'' else ''undefined'') @
                '' (reading '' @ [CHR 0x27] @ k @ [CHR 0x27] @ '')'')"

text \<open>\<^verbatim>\<open>j.k\<close>: a \<^verbatim>\<open>TypeError\<close> on \<^verbatim>\<open>null\<close> and \<^verbatim>\<open>undefined\<close>.\<close>

definition readProp :: "json \<Rightarrow> string \<Rightarrow> exn + json" where
  "readProp j k = (if nullish j then Inl (cannotRead j k) else Inr (getMember j k))"

text \<open>\<^verbatim>\<open>j?.k\<close> and \<^verbatim>\<open>j?.[i]\<close>.\<close>

definition optProp :: "json \<Rightarrow> string \<Rightarrow> json" where
  "optProp j k = (if nullish j then JUndefined else getMember j k)"

definition optIndex :: "json \<Rightarrow> nat \<Rightarrow> json" where
  "optIndex j i = (if nullish j then JUndefined else getIndex j i)"

definition readIndex :: "json \<Rightarrow> nat \<Rightarrow> exn + json" where
  "readIndex j i = (if nullish j then Inl (cannotRead j (showNat i)) else Inr (getIndex j i))"

fun joinComma :: "string list \<Rightarrow> string" where
  "joinComma [] = []"
| "joinComma [x] = x"
| "joinComma (x # y # ys) = x @ '','' @ joinComma (y # ys)"

text \<open>The string a template literal \<^verbatim>\<open>`${j}`\<close> puts in.\<close>

fun toStr :: "json \<Rightarrow> string" where
  "toStr JUndefined = ''undefined''"
| "toStr JNull = ''null''"
| "toStr (JBool b) = (if b then ''true'' else ''false'')"
| "toStr (JNum n) = showInt n"
| "toStr (JStr s) = s"
| "toStr (JArr xs) = joinComma (map (\<lambda>x. if nullish x then [] else toStr x) xs)"
| "toStr (JObj kvs) = ''[object Object]''"

definition andThenE :: "exn + 'a \<Rightarrow> ('a \<Rightarrow> exn + 'b) \<Rightarrow> exn + 'b" where
  "andThenE r f = (case r of Inl e \<Rightarrow> Inl e | Inr x \<Rightarrow> f x)"

text \<open>
  \<^verbatim>\<open>xs.forEach(f)\<close> and \<^verbatim>\<open>xs.map(f)\<close>: \<open>elementsOf\<close> is the receiver check, \<open>mapE\<close> runs the
  callback on the elements in order and stops at the first one that throws.
\<close>

definition elementsOf :: "json \<Rightarrow> string \<Rightarrow> exn + json list" where
  "elementsOf j method =
     (case j of
        JArr xs \<Rightarrow> Inr xs
      | _ \<Rightarrow> if nullish j then Inl (cannotRead j method)
             else Inl (TypeError (method @ '' is not a function'')))"

fun mapE :: "('a \<Rightarrow> exn + 'b) \<Rightarrow> 'a list \<Rightarrow> exn + 'b list" where
  "mapE f [] = Inr []"
| "mapE f (x # xs) =
     (case f x of
        Inl e \<Rightarrow> Inl e
      | Inr y \<Rightarrow> (case mapE f xs of Inl e \<Rightarrow> Inl e | Inr ys \<Rightarrow> Inr (y # ys)))"

section \<open>The remote system, the session and the effects of a call\<close>

text \<open>
  A request is the HTTP verb, the path under the base URL and the parameters (query
  string or form fields) before encoding. The remote system is any function from the
  exchanges so far and the request to a reply: the promise is rejected with an error
  message (no response, or a status outside 2xx), or resolved with the body as text and
  as \<^verbatim>\<open>response.data\<close>. The state of a server is the cached session id and the log of the
  exchanges, oldest first. A computation ends by returning, by throwing, or is still
  \<open>Pending\<close> when the rounds allowed to a polling loop are used up; the pauses between
  polls (\<^verbatim>\<open>setTimeout\<close>) take no part in the model.
\<close>

datatype verb = GET | POST

datatype request = Request (verb: verb) (url: string) (params: "(string \<times> json) list")

datatype reply = Rejected string | Resolved string json

type_synonym exchange = "request \<times> reply"

type_synonym remote = "exchange list \<Rightarrow> request \<Rightarrow> reply"

record session =
  sid :: json
  calls :: "exchange list"

datatype 'a outcome = Returned 'a | Thrown exn | Pending

type_synonym 'a io = "session \<Rightarrow> 'a outcome \<times> session"

definition ret :: "'a \<Rightarrow> 'a io" where
  "ret x s = (Returned x, s)"

definition throw :: "exn \<Rightarrow> 'a io" where
  "throw e s = (Thrown e, s)"

definition pending :: "'a io" where
  "pending s = (Pending, s)"

definition liftE :: "exn + 'a \<Rightarrow> 'a io" where
  "liftE r s = (case r of Inl e \<Rightarrow> (Thrown e, s) | Inr x \<Rightarrow> (Returned x, s))"

definition andThen :: "'a io \<Rightarrow> ('a \<Rightarrow> 'b io) \<Rightarrow> 'b io" where
  "andThen m f s =
     (case m s of
        (Returned x, s') \<Rightarrow> f x s'
      | (Thrown e, s') \<Rightarrow> (Thrown e, s')
      | (Pending, s') \<Rightarrow> (Pending, s'))"

definition tryCatch :: "'a io \<Rightarrow> (exn \<Rightarrow> 'a io) \<Rightarrow> 'a io" where
  "tryCatch m h s =
     (case m s of
        (Thrown e, s') \<Rightarrow> h e s'
      | r \<Rightarrow> r)"

definition getSid :: "json io" where
  "getSid s = (Returned (sid s), s)"

definition setSid :: "json \<Rightarrow> unit io" where
  "setSid v s = (Returned (), s\<lparr>sid := v\<rparr>)"

definition exchangeWith :: "remote \<Rightarrow> request \<Rightarrow> session \<Rightarrow> reply \<times> session" where
  "exchangeWith env r s =
     (let rep = env (calls s) r in (rep, s\<lparr>calls := calls s @ [(r, rep)]\<rparr>))"

text \<open>\<^verbatim>\<open>(await axios.get(...)).data\<close> and the same for a response read as text.\<close>

definition axios :: "remote \<Rightarrow> request \<Rightarrow> json io" where
  "axios env r s =
     (case exchangeWith env r s of
        (Rejected m, s') \<Rightarrow> (Thrown (AxiosError m), s')
      | (Resolved body d, s') \<Rightarrow> (Returned d, s'))"

definition axiosText :: "remote \<Rightarrow> request \<Rightarrow> string io" where
  "axiosText env r s =
     (case exchangeWith env r s of
        (Rejected m, s') \<Rightarrow> (Thrown (AxiosError m), s')
      | (Resolved body d, s') \<Rightarrow> (Returned body, s'))"

record config =
  account :: string
  passwd :: string

definition param :: "request \<Rightarrow> string \<Rightarrow> json" where
  "param r k = getMember (JObj (params r)) k"

definition isCall :: "string \<Rightarrow> string \<Rightarrow> request \<Rightarrow> bool" where
  "isCall api method r = (param r ''api'' = JStr api \<and> param r ''method'' = JStr method)"

section \<open>Argument validation\<close>

text \<open>
  Modelled from the spec: the schema library (\<^verbatim>\<open>zod\<close>: \<^verbatim>\<open>z.object\<close>, \<^verbatim>\<open>safeParse\<close> and the text
  of its error) is not part of the repository's sources. The spec (4.4) says: validate
  the shape of the supplied arguments against a fixed schema, reject with a validation
  error naming the offending field when a required field is absent or has the wrong
  primitive type. A schema lists the fields, all strings, as the \<^verbatim>\<open>z.object({...})\<close>
  declarations of the two servers do: required, \<^verbatim>\<open>.optional()\<close> or \<^verbatim>\<open>.default(d)\<close>. Arguments
  that are no object have every required field absent.
\<close>

datatype fieldKind = Required | Optional | Default string

type_synonym schema = "(string \<times> fieldKind) list"

fun checkField :: "json \<Rightarrow> string \<times> fieldKind \<Rightarrow> string + (string \<times> json)" where
  "checkField args (f, kind) =
     (case getMember args f of
        JStr v \<Rightarrow> Inr (f, JStr v)
      | JUndefined \<Rightarrow>
         (case kind of
            Required \<Rightarrow> Inl f
          | Optional \<Rightarrow> Inr (f, JUndefined)
          | Default d \<Rightarrow> Inr (f, JStr d))
      | _ \<Rightarrow> Inl f)"

fun isObject :: "json \<Rightarrow> bool" where
  "isObject (JObj kvs) = True"
| "isObject j = False"

definition offending :: "schema \<Rightarrow> json \<Rightarrow> string list" where
  "offending sch args =
     concat (map (\<lambda>fk. case checkField args fk of Inl f \<Rightarrow> [f] | Inr kv \<Rightarrow> []) sch)"

definition parsedData :: "schema \<Rightarrow> json \<Rightarrow> json" where
  "parsedData sch args =
     JObj (concat (map (\<lambda>fk. case checkField args fk of Inl f \<Rightarrow> [] | Inr kv \<Rightarrow> [kv]) sch))"

definition zodErrorText :: "string list \<Rightarrow> string" where
  "zodErrorText names = ''ZodError: invalid or missing '' @ joinComma names"

definition safeParse :: "schema \<Rightarrow> json \<Rightarrow> string + json" where
  "safeParse sch args =
     (if isObject args \<and> offending sch args = [] then Inr (parsedData sch args)
      else Inl (zodErrorText (offending sch args)))"

section \<open>Variant A: session and tools\<close>

definition entry :: "(string \<times> json) list \<Rightarrow> request" where
  "entry ps = Request GET ''/webapi/entry.cgi'' ps"

definition loginRequest :: "config \<Rightarrow> request" where
  "loginRequest cfg = Request GET ''/webapi/auth.cgi''
     [(''api'', JStr ''SYNO.API.Auth''), (''version'', JStr ''6''), (''method'', JStr ''login''),
      (''account'', JStr (account cfg)), (''passwd'', JStr (passwd cfg)),
      (''session'', JStr ''FileStation''), (''format'', JStr ''sid'')]"

definition logoutRequest :: "json \<Rightarrow> request" where
  "logoutRequest sidv = Request GET ''/webapi/auth.cgi''
     [(''api'', JStr ''SYNO.API.Auth''), (''version'', JStr ''6''), (''method'', JStr ''logout''),
      (''session'', JStr ''FileStation''), (''_sid'', sidv)]"

definition authFailed :: exn where
  "authFailed = Error ''Failed to authenticate with Synology NAS''"

text \<open>
  \<^verbatim>\<open>login()\<close>: the cached id when there is one; else one request, whose \<^verbatim>\<open>data.sid\<close> is
  stored before it is compared with \<^verbatim>\<open>null\<close>. Whatever is thrown inside is replaced by
  the one authentication error.
\<close>

definition login :: "config \<Rightarrow> remote \<Rightarrow> json io" where
  "login cfg env =
     tryCatch
       (andThen getSid (\<lambda>cached.
          if truthy cached then ret cached
          else
            andThen (axios env (loginRequest cfg)) (\<lambda>d.
            andThen (liftE (readProp d ''success'')) (\<lambda>ok.
              if truthy ok then
                andThen (liftE (andThenE (readProp d ''data'') (\<lambda>dd. readProp dd ''sid''))) (\<lambda>v.
                andThen (setSid v) (\<lambda>u.
                  if v = JNull then throw (Error ''Failed to get session ID'') else ret v))
              else
                throw (Error (if truthy (optProp (getMember d ''error'') ''code'')
                              then ''Error '' @ toStr (getMember (getMember d ''error'') ''code'')
                              else ''Login failed''))))))
       (\<lambda>e. throw authFailed)"

text \<open>
  \<^verbatim>\<open>logout()\<close>: nothing without a cached id; else one request, and the id is cleared when
  the request resolves. A rejected request is logged and the id stays.
\<close>

definition logout :: "remote \<Rightarrow> unit io" where
  "logout env =
     andThen getSid (\<lambda>cached.
       if \<not> truthy cached then ret ()
       else
         tryCatch
           (andThen (axios env (logoutRequest cached)) (\<lambda>d. setSid JNull))
           (\<lambda>e. ret ()))"

datatype toolResult = ToolResult (textOf: string) (isError: bool)

definition content :: "string \<Rightarrow> toolResult" where
  "content t = ToolResult t False"

definition ListFoldersArgsSchema :: schema where
  "ListFoldersArgsSchema = [(''path'', Required)]"

definition GetFileArgsSchema :: schema where
  "GetFileArgsSchema = [(''path'', Required)]"

definition UploadFileArgsSchema :: schema where
  "UploadFileArgsSchema = [(''path'', Required), (''content'', Required)]"

definition CreateFolderArgsSchema :: schema where
  "CreateFolderArgsSchema = [(''path'', Required), (''name'', Required)]"

definition DeleteItemArgsSchema :: schema where
  "DeleteItemArgsSchema = [(''path'', Required)]"

definition MoveItemArgsSchema :: schema where
  "MoveItemArgsSchema = [(''source'', Required), (''destination'', Required)]"

definition SearchArgsSchema :: schema where
  "SearchArgsSchema = [(''keyword'', Required), (''path'', Default ''/'')]"

definition GetShareLinksArgsSchema :: schema where
  "GetShareLinksArgsSchema = [(''path'', Required)]"

definition GetQuotaInfoArgsSchema :: schema where
  "GetQuotaInfoArgsSchema = [(''volume'', Optional)]"

text \<open>
  \<^verbatim>\<open>const parsed = Schema.safeParse(args); if (!parsed.success) throw new Error(...)\<close>, with
  the prefix of the message as the handler writes it.
\<close>

definition validate :: "string \<Rightarrow> schema \<Rightarrow> json \<Rightarrow> json io" where
  "validate prefix sch args =
     (case safeParse sch args of
        Inl err \<Rightarrow> throw (Error (prefix @ err))
      | Inr parsed \<Rightarrow> ret parsed)"

text \<open>
  What the platform supplies and the repository does not define: the local date and
  time of a number of seconds (\<^verbatim>\<open>new Date(t * 1000).toLocaleString()\<close>), the text of a
  volume's sizes when they are no plain non-negative integers (doubles, \<^verbatim>\<open>NaN\<close>),
  \<^verbatim>\<open>JSON.stringify(v, null, 2)\<close>, and \<^verbatim>\<open>path.dirname\<close> and \<^verbatim>\<open>path.basename\<close>.
\<close>

record platform =
  localeString :: "json \<Rightarrow> string"
  irregularSizes :: "json \<Rightarrow> string"
  stringify :: "json \<Rightarrow> string"
  dirname :: "string \<Rightarrow> string"
  basename :: "string \<Rightarrow> string"

definition dirOrFile :: "json \<Rightarrow> string" where
  "dirOrFile file = (if truthy (getMember file ''isdir'') then ''[DIR]'' else ''[FILE]'')"

definition nl :: string where
  "nl = [CHR 0x0A]"

text \<open>The callback of \<^verbatim>\<open>files.forEach\<close>: reading \<^verbatim>\<open>file.isdir\<close> throws on a null entry.\<close>

definition entryLine :: "string \<Rightarrow> json \<Rightarrow> exn + string" where
  "entryLine field file =
     andThenE (readProp file ''isdir'') (\<lambda>d.
       Inr (dirOrFile file @ '' '' @ toStr (getMember file field) @ nl))"

definition entryLines :: "string \<Rightarrow> json \<Rightarrow> exn + string" where
  "entryLines field files =
     andThenE (elementsOf files ''forEach'') (\<lambda>fs.
     andThenE (mapE (entryLine field) fs) (\<lambda>ls. Inr (concat ls)))"

definition dataField :: "json \<Rightarrow> string \<Rightarrow> exn + json" where
  "dataField d k = andThenE (readProp d ''data'') (\<lambda>dd. readProp dd k)"

definition codeOf :: "json \<Rightarrow> string" where
  "codeOf d = toStr (optProp (getMember d ''error'') ''code'')"

definition toolLogin :: "config \<Rightarrow> remote \<Rightarrow> toolResult io" where
  "toolLogin cfg env =
     andThen (login cfg env) (\<lambda>sessionId.
       ret (content (''Successfully logged in with session ID: '' @ toStr sessionId)))"

definition toolLogout :: "remote \<Rightarrow> toolResult io" where
  "toolLogout env = andThen (logout env) (\<lambda>u. ret (content ''Successfully logged out''))"

definition listFoldersRequest :: "json \<Rightarrow> json \<Rightarrow> request" where
  "listFoldersRequest path sessionId =
     entry [(''api'', JStr ''SYNO.FileStation.List''), (''version'', JStr ''2''),
            (''method'', JStr ''list''), (''folder_path'', path), (''_sid'', sessionId)]"

definition listFoldersError :: "json \<Rightarrow> string" where
  "listFoldersError d =
     ''Error '' @ codeOf d @ '': '' @
     (let m = optProp (optIndex (optProp (getMember d ''error'') ''errors'') 0) ''message''
      in if truthy m then toStr m else ''Unknown error'')"

definition toolListFolders :: "config \<Rightarrow> remote \<Rightarrow> json \<Rightarrow> toolResult io" where
  "toolListFolders cfg env args =
     andThen (validate ''Invalid arguments: '' ListFoldersArgsSchema args) (\<lambda>parsed.
     andThen (login cfg env) (\<lambda>sessionId.
     andThen (axios env (listFoldersRequest (getMember parsed ''path'') sessionId)) (\<lambda>d.
     andThen (liftE (readProp d ''success'')) (\<lambda>ok.
       if \<not> truthy ok then throw (Error (listFoldersError d))
       else
         andThen (liftE (dataField d ''files'')) (\<lambda>files.
         andThen (liftE (entryLines ''name'' files)) (\<lambda>ls.
           ret (content (''Items in '' @ toStr (getMember parsed ''path'') @ '':'' @ nl @ ls))))))))"

text \<open>
  A remote call of a tool whose failure envelope becomes
  \<^verbatim>\<open>throw new Error(`<what>: ${response.data.error?.code}`)\<close>.
\<close>

definition checked :: "remote \<Rightarrow> request \<Rightarrow> string \<Rightarrow> json io" where
  "checked env r what =
     andThen (axios env r) (\<lambda>d.
     andThen (liftE (readProp d ''success'')) (\<lambda>ok.
       if \<not> truthy ok then throw (Error (what @ '': '' @ codeOf d)) else ret d))"

definition lastSlash :: "string \<Rightarrow> nat option" where
  "lastSlash p =
     (if CHR ''/'' \<in> set p
      then Some (length p - 1 - length (takeWhile (\<lambda>c. c \<noteq> CHR ''/'') (rev p)))
      else None)"

text \<open>\<^verbatim>\<open>p.substring(0, p.lastIndexOf('/'))\<close> and \<^verbatim>\<open>p.substring(p.lastIndexOf('/') + 1)\<close>.\<close>

definition upToLastSlash :: "string \<Rightarrow> string" where
  "upToLastSlash p = (case lastSlash p of None \<Rightarrow> [] | Some i \<Rightarrow> take i p)"

definition afterLastSlash :: "string \<Rightarrow> string" where
  "afterLastSlash p = (case lastSlash p of None \<Rightarrow> p | Some i \<Rightarrow> drop (i + 1) p)"

definition toolGetFile :: "config \<Rightarrow> remote \<Rightarrow> json \<Rightarrow> toolResult io" where
  "toolGetFile cfg env args =
     andThen (validate ''Invalid arguments: '' GetFileArgsSchema args) (\<lambda>parsed.
     andThen (login cfg env) (\<lambda>sessionId.
     andThen (axios env (entry [(''api'', JStr ''SYNO.FileStation.List''), (''version'', JStr ''2''),
                (''method'', JStr ''getinfo''), (''path'', getMember parsed ''path''),
                (''_sid'', sessionId)])) (\<lambda>info.
     andThen (liftE (readProp info ''success'')) (\<lambda>ok.
       if \<not> truthy ok then throw (Error ''Error: File not found or cannot be accessed'')
       else
         andThen (axiosText env (entry [(''api'', JStr ''SYNO.FileStation.Download''),
                    (''version'', JStr ''2''), (''method'', JStr ''download''),
                    (''path'', getMember parsed ''path''), (''mode'', JStr ''open''),
                    (''_sid'', sessionId)])) (\<lambda>body.
           ret (content body))))))"

definition toolUploadFile :: "config \<Rightarrow> remote \<Rightarrow> json \<Rightarrow> toolResult io" where
  "toolUploadFile cfg env args =
     andThen (validate ''Invalid arguments: '' UploadFileArgsSchema args) (\<lambda>parsed.
     andThen (login cfg env) (\<lambda>sessionId.
       let path = toStr (getMember parsed ''path'');
           folderPath = upToLastSlash path;
           fileName = afterLastSlash path
       in
     andThen (checked env (Request POST ''/webapi/entry.cgi''
                [(''filedata'', getMember parsed ''content''), (''filename'', JStr fileName),
                 (''api'', JStr ''SYNO.FileStation.Upload''), (''version'', JStr ''2''),
                 (''method'', JStr ''upload''), (''path'', JStr folderPath),
                 (''create_parents'', JStr ''true''), (''overwrite'', JStr ''true''),
                 (''_sid'', sessionId)]) ''Upload failed'') (\<lambda>d.
       ret (content (''Successfully uploaded file to '' @ path)))))"

definition toolCreateFolder :: "config \<Rightarrow> remote \<Rightarrow> json \<Rightarrow> toolResult io" where
  "toolCreateFolder cfg env args =
     andThen (validate ''Invalid arguments: '' CreateFolderArgsSchema args) (\<lambda>parsed.
     andThen (login cfg env) (\<lambda>sessionId.
     andThen (checked env (entry [(''api'', JStr ''SYNO.FileStation.CreateFolder''),
                (''version'', JStr ''2''), (''method'', JStr ''create''),
                (''folder_path'', getMember parsed ''path''), (''name'', getMember parsed ''name''),
                (''create_parents'', JStr ''true''), (''_sid'', sessionId)])
              ''Failed to create folder'') (\<lambda>d.
       ret (content (''Successfully created folder '' @ toStr (getMember parsed ''name'') @
                     '' at '' @ toStr (getMember parsed ''path''))))))"

definition toolDeleteItem :: "config \<Rightarrow> remote \<Rightarrow> json \<Rightarrow> toolResult io" where
  "toolDeleteItem cfg env args =
     andThen (validate ''Invalid arguments: '' DeleteItemArgsSchema args) (\<lambda>parsed.
     andThen (login cfg env) (\<lambda>sessionId.
     andThen (checked env (entry [(''api'', JStr ''SYNO.FileStation.Delete''),
                (''version'', JStr ''2''), (''method'', JStr ''delete''),
                (''path'', getMember parsed ''path''), (''recursive'', JStr ''true''),
                (''_sid'', sessionId)]) ''Failed to delete item'') (\<lambda>d.
       ret (content (''Successfully deleted '' @ toStr (getMember parsed ''path''))))))"

definition toolMoveItem :: "config \<Rightarrow> remote \<Rightarrow> json \<Rightarrow> toolResult io" where
  "toolMoveItem cfg env args =
     andThen (validate ''Invalid arguments: '' MoveItemArgsSchema args) (\<lambda>parsed.
     andThen (login cfg env) (\<lambda>sessionId.
       let destination = toStr (getMember parsed ''destination'');
           destFolder = upToLastSlash destination;
           newName = afterLastSlash destination
       in
     andThen (checked env (entry [(''api'', JStr ''SYNO.FileStation.Rename''),
                (''version'', JStr ''2''), (''method'', JStr ''rename''),
                (''path'', getMember parsed ''source''), (''dest_folder_path'', JStr destFolder),
                (''name'', JStr newName), (''_sid'', sessionId)])
              ''Failed to move/rename item'') (\<lambda>d.
       ret (content (''Successfully moved '' @ toStr (getMember parsed ''source'') @ '' to '' @
                     destination)))))"

subsection \<open>The search tool of variant A\<close>

definition searchRequest :: "string \<Rightarrow> json \<Rightarrow> json \<Rightarrow> request" where
  "searchRequest method taskId sessionId =
     entry [(''api'', JStr ''SYNO.FileStation.Search''), (''version'', JStr ''2''),
            (''method'', JStr method), (''taskid'', taskId), (''_sid'', sessionId)]"

definition searchStartRequest :: "json \<Rightarrow> json \<Rightarrow> json \<Rightarrow> request" where
  "searchStartRequest path keyword sessionId =
     entry [(''api'', JStr ''SYNO.FileStation.Search''), (''version'', JStr ''2''),
            (''method'', JStr ''start''), (''folder_path'', path), (''pattern'', keyword),
            (''_sid'', sessionId)]"

text \<open>
  The text built from the response of the \<^verbatim>\<open>list\<close> call: empty when the envelope reports
  a failure.
\<close>

definition searchResultText :: "string \<Rightarrow> string \<Rightarrow> json \<Rightarrow> exn + string" where
  "searchResultText keyword path res =
     andThenE (readProp res ''success'') (\<lambda>ok.
       if truthy ok then
         andThenE (dataField res ''files'') (\<lambda>files.
         andThenE (entryLines ''path'' files) (\<lambda>ls.
           Inr (''Search results for '' @ [CHR 0x22] @ keyword @ [CHR 0x22] @ '' in '' @ path @
                '':'' @ nl @ ls @
                (if getMember files ''length'' = JNum 0 then ''No results found.'' @ nl else []))))
       else Inr [])"

text \<open>
  \<^verbatim>\<open>while (!isFinished) { wait; status; if (finished) { isFinished = true; list; stop } }\<close>.
  The first argument bounds the number of rounds.
\<close>

fun searchLoop :: "nat \<Rightarrow> remote \<Rightarrow> json \<Rightarrow> json \<Rightarrow> string \<Rightarrow> string \<Rightarrow> string io" where
  "searchLoop 0 env taskId sessionId keyword path = pending"
| "searchLoop (Suc n) env taskId sessionId keyword path =
     andThen (axios env (searchRequest ''status'' taskId sessionId)) (\<lambda>st.
     andThen (liftE (dataField st ''finished'')) (\<lambda>fin.
       if truthy fin then
         andThen (axios env (searchRequest ''list'' taskId sessionId)) (\<lambda>res.
         andThen (liftE (searchResultText keyword path res)) (\<lambda>result.
         andThen (axios env (searchRequest ''stop'' taskId sessionId)) (\<lambda>stopped.
           ret result)))
       else searchLoop n env taskId sessionId keyword path))"

definition toolSearch :: "config \<Rightarrow> nat \<Rightarrow> remote \<Rightarrow> json \<Rightarrow> toolResult io" where
  "toolSearch cfg fuel env args =
     andThen (validate ''Invalid arguments: '' SearchArgsSchema args) (\<lambda>parsed.
     andThen (login cfg env) (\<lambda>sessionId.
     andThen (checked env (searchStartRequest (getMember parsed ''path'')
                (getMember parsed ''keyword'') sessionId) ''Search failed'') (\<lambda>d.
     andThen (liftE (dataField d ''taskid'')) (\<lambda>taskId.
     andThen (searchLoop fuel env taskId sessionId (toStr (getMember parsed ''keyword''))
                (toStr (getMember parsed ''path''))) (\<lambda>result.
       ret (content result))))))"

subsection \<open>Share links, server information, quota\<close>

definition linkLines :: "platform \<Rightarrow> json \<Rightarrow> json \<Rightarrow> exn + string" where
  "linkLines pf path link =
     andThenE (readProp link ''path'') (\<lambda>lp.
       if lp = path then
         Inr (''URL: '' @ toStr (getMember link ''url'') @ nl @
              (if truthy (getMember link ''expire_time'')
               then ''Expires: '' @ localeString pf (getMember link ''expire_time'') @ nl
               else ''No expiration date'' @ nl))
       else Inr [])"

definition toolGetShareLinks :: "platform \<Rightarrow> config \<Rightarrow> remote \<Rightarrow> json \<Rightarrow> toolResult io" where
  "toolGetShareLinks pf cfg env args =
     andThen (validate ''Invalid arguments: '' GetShareLinksArgsSchema args) (\<lambda>parsed.
     andThen (login cfg env) (\<lambda>sessionId.
     andThen (checked env (entry [(''api'', JStr ''SYNO.FileStation.Sharing''),
                (''version'', JStr ''3''), (''method'', JStr ''create''),
                (''path'', getMember parsed ''path''), (''_sid'', sessionId)])
              ''Failed to create share link'') (\<lambda>created.
     andThen (checked env (entry [(''api'', JStr ''SYNO.FileStation.Sharing''),
                (''version'', JStr ''3''), (''method'', JStr ''list''), (''_sid'', sessionId)])
              ''Failed to list share links'') (\<lambda>d.
     andThen (liftE (dataField d ''links'')) (\<lambda>links.
     andThen (liftE (andThenE (elementsOf links ''forEach'') (\<lambda>ls.
                mapE (linkLines pf (getMember parsed ''path'')) ls))) (\<lambda>lines.
       ret (content (''Share links for '' @ toStr (getMember parsed ''path'') @ '':'' @ nl @
                     concat lines))))))))"

text \<open>
  \<^verbatim>\<open>Object.entries(v)\<close>: a \<^verbatim>\<open>TypeError\<close> on \<^verbatim>\<open>null\<close> and \<^verbatim>\<open>undefined\<close>; the members of an
  object, the indexed elements of an array or string, nothing for a number or boolean.
\<close>

definition objectEntries :: "json \<Rightarrow> exn + (string \<times> json) list" where
  "objectEntries v =
     (case v of
        JObj kvs \<Rightarrow> Inr kvs
      | JArr xs \<Rightarrow> Inr (zip (map showNat [0..<length xs]) xs)
      | JStr cs \<Rightarrow> Inr (zip (map showNat [0..<length cs]) (map (\<lambda>c. JStr [c]) cs))
      | JUndefined \<Rightarrow> Inl (TypeError ''Cannot convert undefined or null to object'')
      | JNull \<Rightarrow> Inl (TypeError ''Cannot convert undefined or null to object'')
      | _ \<Rightarrow> Inr [])"

definition serverInfoText :: "platform \<Rightarrow> json \<Rightarrow> exn + string" where
  "serverInfoText pf info =
     andThenE (readProp info ''hostname'') (\<lambda>hostname.
     andThenE (objectEntries (getMember info ''support_virtual_protocol'')) (\<lambda>es.
       Inr (''Synology Server Information:'' @ nl @
            ''Hostname: '' @ toStr hostname @ nl @
            ''DSM Version: '' @ toStr (getMember info ''version'') @ nl @
            ''Time: '' @ localeString pf (getMember info ''time'') @ nl @
            ''Filesystem support:'' @ nl @
            concat (map (\<lambda>(fs, supported).
                      ''  - '' @ fs @ '': '' @ (if truthy supported then ''Yes'' else ''No'') @ nl)
                    es))))"

definition toolGetServerInfo :: "platform \<Rightarrow> config \<Rightarrow> remote \<Rightarrow> toolResult io" where
  "toolGetServerInfo pf cfg env =
     andThen (login cfg env) (\<lambda>sessionId.
     andThen (checked env (entry [(''api'', JStr ''SYNO.FileStation.Info''),
                (''version'', JStr ''2''), (''method'', JStr ''get''), (''_sid'', sessionId)])
              ''Failed to get server info'') (\<lambda>d.
     andThen (liftE (readProp d ''data'')) (\<lambda>info.
     andThen (liftE (serverInfoText pf info)) (\<lambda>result.
       ret (content result)))))"

definition sizeLines :: "platform \<Rightarrow> json \<Rightarrow> string" where
  "sizeLines pf volume =
     (case (getMember volume ''total_size'', getMember volume ''free_size'') of
        (JNum t, JNum f) \<Rightarrow>
          if 0 < t \<and> 0 \<le> f \<and> f \<le> t then
            ''  - Total Size: '' @ formatBytes (nat t) 2 @ nl @
            ''  - Used: '' @ formatBytes (nat (t - f)) 2 @
               '' ('' @ showInt ((200 * (t - f) + t) div (2 * t)) @ ''%)'' @ nl @
            ''  - Free: '' @ formatBytes (nat f) 2 @ nl
          else irregularSizes pf volume
      | _ \<Rightarrow> irregularSizes pf volume)"

definition volumeLines :: "platform \<Rightarrow> json \<Rightarrow> json \<Rightarrow> exn + string" where
  "volumeLines pf wanted volume =
     andThenE (readProp volume ''name'') (\<lambda>vname.
       if \<not> truthy wanted \<or> vname = wanted then
         Inr (''Volume: '' @ toStr vname @ nl @
              ''  - Status: '' @ toStr (getMember volume ''status'') @ nl @
              ''  - File System: '' @ toStr (getMember volume ''filesystem'') @ nl @
              sizeLines pf volume)
       else Inr [])"

definition toolGetQuotaInfo :: "platform \<Rightarrow> config \<Rightarrow> remote \<Rightarrow> json \<Rightarrow> toolResult io" where
  "toolGetQuotaInfo pf cfg env args =
     andThen (validate ''Invalid arguments: '' GetQuotaInfoArgsSchema args) (\<lambda>parsed.
     andThen (login cfg env) (\<lambda>sessionId.
     andThen (checked env (entry [(''api'', JStr ''SYNO.FileStation.Volume''),
                (''version'', JStr ''1''), (''method'', JStr ''list''), (''_sid'', sessionId)])
              ''Failed to get quota info'') (\<lambda>d.
     andThen (liftE (dataField d ''volumes'')) (\<lambda>volumes.
     andThen (liftE (andThenE (elementsOf volumes ''forEach'') (\<lambda>vs.
                mapE (volumeLines pf (getMember parsed ''volume'')) vs))) (\<lambda>lines.
       ret (content (''Storage Volume Information:'' @ nl @ concat lines)))))))"

subsection \<open>The dispatcher of variant A\<close>

definition toolBody ::
  "platform \<Rightarrow> config \<Rightarrow> nat \<Rightarrow> remote \<Rightarrow> string \<Rightarrow> json \<Rightarrow> toolResult io" where
  "toolBody pf cfg fuel env name args =
     (if name = ''login'' then toolLogin cfg env
      else if name = ''logout'' then toolLogout env
      else if name = ''list_folders'' then toolListFolders cfg env args
      else if name = ''get_file'' then toolGetFile cfg env args
      else if name = ''upload_file'' then toolUploadFile cfg env args
      else if name = ''create_folder'' then toolCreateFolder cfg env args
      else if name = ''delete_item'' then toolDeleteItem cfg env args
      else if name = ''move_item'' then toolMoveItem cfg env args
      else if name = ''search'' then toolSearch cfg fuel env args
      else if name = ''get_share_links'' then toolGetShareLinks pf cfg env args
      else if name = ''get_server_info'' then toolGetServerInfo pf cfg env
      else if name = ''get_quota_info'' then toolGetQuotaInfo pf cfg env args
      else throw (Error (''Unknown tool: '' @ name)))"

text \<open>
  The \<^verbatim>\<open>try { switch ... } catch (error)\<close> around every tool: a thrown error becomes a
  result marked as an error. \<open>None\<close> stands for a handler that has not returned within
  the rounds given to the polling loop.
\<close>

definition errorResult :: "exn \<Rightarrow> toolResult" where
  "errorResult e = ToolResult (''Error: '' @ message e) True"

definition atBoundary :: "toolResult io \<Rightarrow> session \<Rightarrow> toolResult option \<times> session" where
  "atBoundary body s =
     (case body s of
        (Returned r, s') \<Rightarrow> (Some r, s')
      | (Thrown e, s') \<Rightarrow> (Some (errorResult e), s')
      | (Pending, s') \<Rightarrow> (None, s'))"

definition callTool ::
  "platform \<Rightarrow> config \<Rightarrow> nat \<Rightarrow> remote \<Rightarrow> string \<Rightarrow> json \<Rightarrow> session \<Rightarrow>
   toolResult option \<times> session" where
  "callTool pf cfg fuel env name args = atBoundary (toolBody pf cfg fuel env name args)"

section \<open>Variant B: session, wrappers and tools\<close>

definition synoLoginRequest :: "config \<Rightarrow> request" where
  "synoLoginRequest cfg = Request POST ''/webapi/auth.cgi''
     [(''api'', JStr ''SYNO.API.Auth''), (''version'', JStr ''3''), (''method'', JStr ''login''),
      (''account'', JStr (account cfg)), (''passwd'', JStr (passwd cfg)),
      (''session'', JStr ''FileStation''), (''format'', JStr ''sid'')]"

definition synoLogoutRequest :: "json \<Rightarrow> request" where
  "synoLogoutRequest sidv = entry
     [(''api'', JStr ''SYNO.API.Auth''), (''version'', JStr ''6''), (''method'', JStr ''logout''),
      (''session'', JStr ''FileStation''), (''_sid'', sidv)]"

definition sessionProbeRequest :: "json \<Rightarrow> request" where
  "sessionProbeRequest sidv = entry
     [(''api'', JStr ''SYNO.API.Info''), (''version'', JStr ''1''), (''method'', JStr ''query''),
      (''query'', JStr ''SYNO.API.Auth''), (''_sid'', sidv)]"

text \<open>\<^verbatim>\<open>dsm.sid.substring(0, 5)\<close> in the log line after a login: only a string has it.\<close>

definition substringCheck :: "json \<Rightarrow> exn + unit" where
  "substringCheck v =
     (case v of
        JStr x \<Rightarrow> Inr ()
      | _ \<Rightarrow> if nullish v then Inl (cannotRead v ''substring'')
             else Inl (TypeError ''dsm.sid.substring is not a function''))"

text \<open>
  \<^verbatim>\<open>synoLogin\<close>: \<open>True\<close> after a successful login, \<open>False\<close> for a failure envelope and for
  anything thrown on the way. The session id is assigned before the log line is built.
\<close>

definition synoLogin :: "config \<Rightarrow> remote \<Rightarrow> bool io" where
  "synoLogin cfg env =
     tryCatch
       (andThen (axios env (synoLoginRequest cfg)) (\<lambda>d.
          if truthy d \<and> truthy (getMember d ''success'') then
            andThen (liftE (readProp (getMember d ''data'') ''sid'')) (\<lambda>v.
            andThen (setSid v) (\<lambda>u.
            andThen (liftE (substringCheck v)) (\<lambda>u'. ret True)))
          else ret False))
       (\<lambda>e. ret False)"

text \<open>
  \<^verbatim>\<open>synoLogout\<close>: \<open>True\<close> without a session id, and after a logout the remote confirmed,
  which clears the id; \<open>False\<close>, with the id kept, otherwise.
\<close>

definition synoLogout :: "remote \<Rightarrow> bool io" where
  "synoLogout env =
     tryCatch
       (andThen getSid (\<lambda>cached.
          if \<not> truthy cached then ret True
          else
            andThen (axios env (synoLogoutRequest cached)) (\<lambda>d.
              if truthy d \<and> truthy (getMember d ''success'') then
                andThen (setSid (JStr [])) (\<lambda>u. ret True)
              else ret False)))
       (\<lambda>e. ret False)"

definition ensureLogin :: "config \<Rightarrow> remote \<Rightarrow> bool io" where
  "ensureLogin cfg env =
     andThen getSid (\<lambda>cached.
       if \<not> truthy cached then
         andThen (synoLogin cfg env) (\<lambda>loginSuccess.
           if \<not> loginSuccess then throw (Error ''Failed to log in to Synology NAS'')
           else ret True)
       else ret True)"

definition sessionTimedOut :: "json \<Rightarrow> bool" where
  "sessionTimedOut d =
     (truthy d \<and> \<not> truthy (getMember d ''success'') \<and> truthy (getMember d ''error'') \<and>
      getMember (getMember d ''error'') ''code'' = JNum 119)"

text \<open>
  \<^verbatim>\<open>refreshSession\<close>: one probe with the current id; a new login when the probe's
  envelope carries error code 119, and when the probe throws.
\<close>

definition refreshSession :: "config \<Rightarrow> remote \<Rightarrow> bool io" where
  "refreshSession cfg env =
     tryCatch
       (andThen getSid (\<lambda>cached.
        andThen (axios env (sessionProbeRequest cached)) (\<lambda>d.
          if sessionTimedOut d then synoLogin cfg env else ret True)))
       (\<lambda>e. synoLogin cfg env)"

text \<open>
  The wrappers. Each body stands in \<^verbatim>\<open>try { ... } catch (error) { console.error(...);
  throw error; }\<close>, which passes every error on unchanged, so the model is the body.
  \<open>errorCode d\<close> is \<^verbatim>\<open>response.data.error.code\<close> in the message of a failure.
\<close>

definition errorCode :: "json \<Rightarrow> exn + json" where
  "errorCode d = andThenE (readProp d ''error'') (\<lambda>er. readProp er ''code'')"

definition succeeded :: "json \<Rightarrow> bool" where
  "succeeded d = (truthy d \<and> truthy (getMember d ''success''))"

definition failWith :: "string \<Rightarrow> json \<Rightarrow> 'a io" where
  "failWith what d =
     andThen (liftE (errorCode d)) (\<lambda>c. throw (Error (what @ '': '' @ toStr c)))"

definition listShares :: "config \<Rightarrow> remote \<Rightarrow> json io" where
  "listShares cfg env =
     andThen (refreshSession cfg env) (\<lambda>r.
     andThen getSid (\<lambda>sidv.
     andThen (axios env (entry [(''api'', JStr ''SYNO.FileStation.List''), (''version'', JStr ''2''),
                (''method'', JStr ''list_share''), (''_sid'', sidv)])) (\<lambda>d.
       if succeeded d then liftE (readProp (getMember d ''data'') ''shares'')
       else failWith ''Failed to list shares'' d)))"

definition listDirectoryRequest :: "string \<Rightarrow> json \<Rightarrow> request" where
  "listDirectoryRequest formattedPath sidv =
     entry [(''api'', JStr ''SYNO.FileStation.List''), (''version'', JStr ''2''),
            (''method'', JStr ''list''), (''folder_path'', JStr formattedPath), (''_sid'', sidv)]"

definition listDirectory :: "config \<Rightarrow> remote \<Rightarrow> string \<Rightarrow> json io" where
  "listDirectory cfg env dirPath =
     andThen (refreshSession cfg env) (\<lambda>r.
     andThen getSid (\<lambda>sidv.
     andThen (axios env (listDirectoryRequest (formatSynoPath dirPath) sidv)) (\<lambda>d.
       if succeeded d then liftE (readProp (getMember d ''data'') ''files'')
       else failWith ''Failed to list directory'' d)))"

definition readFile :: "config \<Rightarrow> remote \<Rightarrow> string \<Rightarrow> string io" where
  "readFile cfg env filePath =
     andThen (refreshSession cfg env) (\<lambda>r.
     andThen getSid (\<lambda>sidv.
       axiosText env (entry [(''api'', JStr ''SYNO.FileStation.Download''),
         (''version'', JStr ''2''), (''method'', JStr ''download''),
         (''path'', JStr (formatSynoPath filePath)), (''mode'', JStr ''download''),
         (''_sid'', sidv)])))"

definition writeFile :: "platform \<Rightarrow> config \<Rightarrow> remote \<Rightarrow> string \<Rightarrow> string \<Rightarrow> bool io" where
  "writeFile pf cfg env filePath fileContent =
     andThen (refreshSession cfg env) (\<lambda>r.
     andThen getSid (\<lambda>sidv.
     andThen (axios env (Request POST ''/webapi/entry.cgi''
                [(''api'', JStr ''SYNO.FileStation.Upload''), (''version'', JStr ''2''),
                 (''method'', JStr ''upload''), (''_sid'', sidv),
                 (''path'', JStr (formatSynoPath (dirname pf filePath))),
                 (''create_parents'', JStr ''true''), (''overwrite'', JStr ''true''),
                 (''file'', JStr fileContent), (''filename'', JStr (basename pf filePath))])) (\<lambda>d.
       if succeeded d then ret True
       else failWith ''Failed to write file'' d)))"

definition createDirectory :: "platform \<Rightarrow> config \<Rightarrow> remote \<Rightarrow> string \<Rightarrow> bool io" where
  "createDirectory pf cfg env dirPath =
     andThen (refreshSession cfg env) (\<lambda>r.
     andThen getSid (\<lambda>sidv.
     andThen (axios env (Request POST ''/webapi/entry.cgi''
                [(''api'', JStr ''SYNO.FileStation.CreateFolder''), (''version'', JStr ''2''),
                 (''method'', JStr ''create''),
                 (''folder_path'', JStr (dirname pf (formatSynoPath dirPath))),
                 (''name'', JStr (basename pf (formatSynoPath dirPath))),
                 (''create_parents'', JStr ''true''), (''_sid'', sidv)])) (\<lambda>d.
       if succeeded d then ret True
       else failWith ''Failed to create directory'' d)))"

subsection \<open>The search wrapper of variant B\<close>

definition searchFilesRequest :: "verb \<Rightarrow> string \<Rightarrow> json \<Rightarrow> json \<Rightarrow> request" where
  "searchFilesRequest v method taskId sidv =
     Request v ''/webapi/entry.cgi''
       [(''api'', JStr ''SYNO.FileStation.Search''), (''version'', JStr ''2''),
        (''method'', JStr method), (''taskid'', taskId), (''_sid'', sidv)]"

definition searchFilesStartRequest :: "string \<Rightarrow> string \<Rightarrow> json \<Rightarrow> request" where
  "searchFilesStartRequest formattedPath pattern sidv =
     Request POST ''/webapi/entry.cgi''
       [(''api'', JStr ''SYNO.FileStation.Search''), (''version'', JStr ''2''),
        (''method'', JStr ''start''), (''folder_path'', JStr formattedPath),
        (''pattern'', JStr pattern), (''_sid'', sidv)]"

text \<open>
  \<^verbatim>\<open>while (!isFinished) { status = await checkStatus(); if (!status.success) throw ...;
  isFinished = status.data.finished; if (!isFinished) wait }\<close>, for at most the given
  number of rounds.
\<close>

fun waitForSearch :: "nat \<Rightarrow> remote \<Rightarrow> json \<Rightarrow> unit io" where
  "waitForSearch 0 env taskId = pending"
| "waitForSearch (Suc n) env taskId =
     andThen getSid (\<lambda>sidv.
     andThen (axios env (searchFilesRequest GET ''status'' taskId sidv)) (\<lambda>status.
     andThen (liftE (readProp status ''success'')) (\<lambda>ok.
       if \<not> truthy ok then failWith ''Search status check failed'' status
       else
         andThen (liftE (dataField status ''finished'')) (\<lambda>fin.
           if \<not> truthy fin then waitForSearch n env taskId else ret ()))))"

definition searchFiles :: "config \<Rightarrow> nat \<Rightarrow> remote \<Rightarrow> string \<Rightarrow> string \<Rightarrow> json io" where
  "searchFiles cfg fuel env searchPath pattern =
     andThen (refreshSession cfg env) (\<lambda>r.
     andThen getSid (\<lambda>sidv.
     andThen (axios env (searchFilesStartRequest (formatSynoPath searchPath) pattern sidv)) (\<lambda>started.
       if \<not> succeeded started then failWith ''Failed to start search'' started
       else
         andThen (liftE (readProp (getMember started ''data'') ''taskid'')) (\<lambda>taskId.
         andThen (waitForSearch fuel env taskId) (\<lambda>u.
         andThen getSid (\<lambda>sidv'.
         andThen (axios env (searchFilesRequest GET ''list'' taskId sidv')) (\<lambda>res.
           if \<not> succeeded res then failWith ''Failed to get search results'' res
           else
             andThen (axios env (searchFilesRequest POST ''stop'' taskId sidv')) (\<lambda>stopped.
               liftE (readProp (getMember res ''data'') ''files'')))))))))"

definition getFileInfo :: "config \<Rightarrow> remote \<Rightarrow> string \<Rightarrow> json io" where
  "getFileInfo cfg env filePath =
     andThen (refreshSession cfg env) (\<lambda>r.
     andThen getSid (\<lambda>sidv.
     andThen (axios env (entry [(''api'', JStr ''SYNO.FileStation.List''), (''version'', JStr ''2''),
                (''method'', JStr ''getinfo''), (''path'', JStr (formatSynoPath filePath)),
                (''additional'', JStr ''time,size,owner,perm''), (''_sid'', sidv)])) (\<lambda>d.
       if succeeded d then
         liftE (andThenE (readProp (getMember d ''data'') ''files'') (\<lambda>fs. readIndex fs 0))
       else failWith ''Failed to get file info'' d)))"

subsection \<open>The dispatcher of variant B\<close>

definition ListDirectoryArgsSchema :: schema where
  "ListDirectoryArgsSchema = [(''path'', Required)]"

definition ReadFileArgsSchema :: schema where
  "ReadFileArgsSchema = [(''path'', Required)]"

definition WriteFileArgsSchema :: schema where
  "WriteFileArgsSchema = [(''path'', Required), (''content'', Required)]"

definition CreateDirectoryArgsSchema :: schema where
  "CreateDirectoryArgsSchema = [(''path'', Required)]"

definition SearchFilesArgsSchema :: schema where
  "SearchFilesArgsSchema = [(''path'', Required), (''pattern'', Required)]"

definition GetFileInfoArgsSchema :: schema where
  "GetFileInfoArgsSchema = [(''path'', Required)]"

definition fileType :: "json \<Rightarrow> json" where
  "fileType file = JStr (if truthy (getMember file ''isdir'') then ''directory'' else ''file'')"

definition orUnknown :: "json \<Rightarrow> json" where
  "orUnknown v = (if truthy v then v else JStr ''unknown'')"

definition shareSummary :: "json \<Rightarrow> exn + json" where
  "shareSummary share =
     andThenE (readProp share ''name'') (\<lambda>n.
       Inr (JObj [(''name'', n), (''path'', getMember share ''path''),
                  (''description'', getMember share ''desc'')]))"

definition directoryEntry :: "json \<Rightarrow> exn + json" where
  "directoryEntry file =
     andThenE (readProp file ''name'') (\<lambda>n.
     andThenE (readProp (getMember file ''time'') ''mtime'') (\<lambda>mtime.
       Inr (JObj [(''name'', n), (''type'', fileType file), (''size'', getMember file ''size''),
                  (''modified'', mtime)])))"

definition searchEntry :: "json \<Rightarrow> exn + json" where
  "searchEntry file =
     andThenE (readProp file ''name'') (\<lambda>n.
       Inr (JObj [(''name'', n), (''path'', getMember file ''path''), (''type'', fileType file),
                  (''size'', getMember file ''size'')]))"

definition fileInfoSummary :: "json \<Rightarrow> exn + json" where
  "fileInfoSummary info =
     andThenE (readProp info ''name'') (\<lambda>n.
       let additional = getMember info ''additional'';
           owner = optProp additional ''owner'';
           time = optProp additional ''time''
       in
       Inr (JObj [(''name'', n), (''path'', getMember info ''path''), (''type'', fileType info),
                  (''size'', getMember info ''size''),
                  (''owner'', orUnknown (optProp owner ''user'')),
                  (''group'', orUnknown (optProp owner ''group'')),
                  (''permissions'', orUnknown (optProp (optProp additional ''perm'') ''posix'')),
                  (''created'', orUnknown (optProp time ''crtime'')),
                  (''modified'', orUnknown (optProp time ''mtime'')),
                  (''accessed'', orUnknown (optProp time ''atime''))]))"

definition mapped :: "platform \<Rightarrow> (json \<Rightarrow> exn + json) \<Rightarrow> json \<Rightarrow> toolResult io" where
  "mapped pf f xs =
     andThen (liftE (andThenE (elementsOf xs ''map'') (mapE f))) (\<lambda>formatted.
       ret (content (stringify pf (JArr formatted))))"

definition pathOf :: "json \<Rightarrow> string" where
  "pathOf parsed = toStr (getMember parsed ''path'')"

definition toolBodyB ::
  "platform \<Rightarrow> config \<Rightarrow> nat \<Rightarrow> remote \<Rightarrow> string \<Rightarrow> json \<Rightarrow> toolResult io" where
  "toolBodyB pf cfg fuel env name args =
     (if name = ''list_shares'' then
        andThen (listShares cfg env) (mapped pf shareSummary)
      else if name = ''list_directory'' then
        andThen (validate ''Invalid arguments for list_directory: '' ListDirectoryArgsSchema args)
          (\<lambda>parsed.
        andThen (listDirectory cfg env (pathOf parsed)) (mapped pf directoryEntry))
      else if name = ''read_file'' then
        andThen (validate ''Invalid arguments for read_file: '' ReadFileArgsSchema args)
          (\<lambda>parsed.
        andThen (readFile cfg env (pathOf parsed)) (\<lambda>body. ret (content body)))
      else if name = ''write_file'' then
        andThen (validate ''Invalid arguments for write_file: '' WriteFileArgsSchema args)
          (\<lambda>parsed.
        andThen (writeFile pf cfg env (pathOf parsed) (toStr (getMember parsed ''content'')))
          (\<lambda>done. ret (content (''Successfully wrote to '' @ pathOf parsed))))
      else if name = ''create_directory'' then
        andThen (validate ''Invalid arguments for create_directory: '' CreateDirectoryArgsSchema
                   args) (\<lambda>parsed.
        andThen (createDirectory pf cfg env (pathOf parsed))
          (\<lambda>done. ret (content (''Successfully created directory '' @ pathOf parsed))))
      else if name = ''search_files'' then
        andThen (validate ''Invalid arguments for search_files: '' SearchFilesArgsSchema args)
          (\<lambda>parsed.
        andThen (searchFiles cfg fuel env (pathOf parsed) (toStr (getMember parsed ''pattern'')))
          (mapped pf searchEntry))
      else if name = ''get_file_info'' then
        andThen (validate ''Invalid arguments for get_file_info: '' GetFileInfoArgsSchema args)
          (\<lambda>parsed.
        andThen (getFileInfo cfg env (pathOf parsed)) (\<lambda>info.
        andThen (liftE (fileInfoSummary info)) (\<lambda>formatted.
          ret (content (stringify pf formatted)))))
      else throw (Error (''Unknown tool: '' @ name)))"

definition callToolB ::
  "platform \<Rightarrow> config \<Rightarrow> nat \<Rightarrow> remote \<Rightarrow> string \<Rightarrow> json \<Rightarrow> session \<Rightarrow>
   toolResult option \<times> session" where
  "callToolB pf cfg fuel env name args = atBoundary (toolBodyB pf cfg fuel env name args)"

section \<open>Reading the log of exchanges\<close>

text \<open>
  The exchanges a computation adds to the log, the calls of the search protocol among
  them, and what a status response reports: the loops test \<^verbatim>\<open>data.finished\<close> for truth.
\<close>

definition issued :: "session \<Rightarrow> session \<Rightarrow> exchange list" where
  "issued s s' = drop (length (calls s)) (calls s')"

definition isSearch :: "string \<Rightarrow> exchange \<Rightarrow> bool" where
  "isSearch method x = isCall ''SYNO.FileStation.Search'' method (fst x)"

definition taskOf :: "exchange \<Rightarrow> json" where
  "taskOf x = param (fst x) ''taskid''"

definition reportsFinished :: "exchange \<Rightarrow> bool" where
  "reportsFinished x =
     (case snd x of
        Rejected m \<Rightarrow> False
      | Resolved body d \<Rightarrow> truthy (optProp (optProp d ''data'') ''finished''))"

definition methods :: "exchange list \<Rightarrow> json list" where
  "methods xs = map (\<lambda>x. param (fst x) ''method'') xs"

definition isLoginCall :: "exchange \<Rightarrow> bool" where
  "isLoginCall x = isCall ''SYNO.API.Auth'' ''login'' (fst x)"

definition isLogoutCall :: "exchange \<Rightarrow> bool" where
  "isLogoutCall x = isCall ''SYNO.API.Auth'' ''logout'' (fst x)"

text \<open>
  The order the search protocol keeps, over the exchanges of one invocation: a stop call
  comes after a list call for the same task, there is at most one stop call, and a list
  call comes after a status exchange for the same task that reported the search
  finished. \<open>searchShape t pre tail\<close> describes the exchanges after the start call: status
  polls for task \<open>t\<close>, then nothing, or the list call, or the list call and the stop call,
  the last poll before them having reported the search finished.
\<close>

definition protocolOrder :: "exchange list \<Rightarrow> bool" where
  "protocolOrder xs =
     ((\<forall>ys x zs. xs = ys @ x # zs \<and> isSearch ''stop'' x \<longrightarrow>
          (\<exists>l \<in> set ys. isSearch ''list'' l \<and> taskOf l = taskOf x)) \<and>
      length (filter (isSearch ''stop'') xs) \<le> 1 \<and>
      (\<forall>ys x zs. xs = ys @ x # zs \<and> isSearch ''list'' x \<longrightarrow>
          (\<exists>p \<in> set ys. isSearch ''status'' p \<and> taskOf p = taskOf x \<and> reportsFinished p)))"

definition searchShape :: "json \<Rightarrow> exchange list \<Rightarrow> exchange list \<Rightarrow> bool" where
  "searchShape t pre tail =
     ((\<forall>x \<in> set pre. isSearch ''status'' x \<and> taskOf x = t) \<and>
      (tail = [] \<or>
       (pre \<noteq> [] \<and> reportsFinished (last pre) \<and>
        (\<exists>li. isSearch ''list'' li \<and> taskOf li = t \<and>
           (tail = [li] \<or> (\<exists>sp. isSearch ''stop'' sp \<and> taskOf sp = t \<and> tail = [li, sp]))))))"

text \<open>The task identifier a start exchange returned (\<^verbatim>\<open>data.taskid\<close> of its response).\<close>

definition startedTask :: "exchange \<Rightarrow> json" where
  "startedTask x =
     (case snd x of
        Rejected m \<Rightarrow> JUndefined
      | Resolved body d \<Rightarrow> optProp (optProp d ''data'') ''taskid'')"

section \<open>Remote systems for the scenarios\<close>

text \<open>
  Envelopes as the remote system sends them, and remotes to run the servers against:
  \<open>mockRemote n\<close> grants every login the session id \<^verbatim>\<open>s1\<close>, starts every search as task
  \<^verbatim>\<open>t1\<close>, reports the search finished from the \<open>n\<close>-th status poll on, lists one folder
  and one file, and confirms everything else. \<open>failingAt\<close> and \<open>answering\<close> change the
  reply to one method. The raw text of these replies is left empty: no scenario reads
  a file.
\<close>

definition okEnvelope :: "json \<Rightarrow> json" where
  "okEnvelope d = JObj [(''success'', JBool True), (''data'', d)]"

definition errorEnvelope :: "int \<Rightarrow> json" where
  "errorEnvelope c = JObj [(''success'', JBool False), (''error'', JObj [(''code'', JNum c)])]"

definition statusPolls :: "exchange list \<Rightarrow> nat" where
  "statusPolls h = length (filter (isSearch ''status'') h)"

definition mockFiles :: json where
  "mockFiles = JArr [JObj [(''name'', JStr ''photos''), (''path'', JStr ''/photos''), (''isdir'', JBool True)],
                     JObj [(''name'', JStr ''a.txt''), (''path'', JStr ''/a.txt''), (''isdir'', JBool False)]]"

definition mockRemote :: "nat \<Rightarrow> remote" where
  "mockRemote n h r =
     Resolved []
       (if param r ''method'' = JStr ''login'' then okEnvelope (JObj [(''sid'', JStr ''s1'')])
        else if param r ''method'' = JStr ''start'' then okEnvelope (JObj [(''taskid'', JStr ''t1'')])
        else if param r ''method'' = JStr ''status''
          then okEnvelope (JObj [(''finished'', JBool (n \<le> Suc (statusPolls h)))])
        else if param r ''method'' = JStr ''list'' then okEnvelope (JObj [(''files'', mockFiles)])
        else okEnvelope (JObj []))"

definition failingAt :: "string \<Rightarrow> remote \<Rightarrow> remote" where
  "failingAt method env h r =
     (if param r ''method'' = JStr method then Rejected ''timeout of 1000ms exceeded'' else env h r)"

definition answering :: "string \<Rightarrow> json \<Rightarrow> remote \<Rightarrow> remote" where
  "answering method d env h r =
     (if param r ''method'' = JStr method then Resolved [] d else env h r)"

definition loggedOut :: session where
  "loggedOut = \<lparr>sid = JNull, calls = []\<rparr>"

definition loggedIn :: session where
  "loggedIn = \<lparr>sid = JStr ''s0'', calls = []\<rparr>"

definition admin :: config where
  "admin = \<lparr>account = ''admin'', passwd = ''secret''\<rparr>"

definition plainPlatform :: platform where
  "plainPlatform = \<lparr>localeString = toStr, irregularSizes = (\<lambda>v. []), stringify = toStr,
                      dirname = upToLastSlash, basename = afterLastSlash\<rparr>"

text \<open>
  What a remote has to answer for a login to succeed in both variants: a success
  envelope whose \<^verbatim>\<open>data.sid\<close> is a non-empty string.
\<close>

definition grantsSession :: "reply \<Rightarrow> bool" where
  "grantsSession rep =
     (case rep of
        Rejected m \<Rightarrow> False
      | Resolved body d \<Rightarrow>
          truthy (getMember d ''success'') \<and>
          (case getMember (getMember d ''data'') ''sid'' of JStr t \<Rightarrow> t \<noteq> [] | _ \<Rightarrow> False))"

section \<open>Properties\<close>

lemma mathFloorLog_exact:
  assumes "0 < bytes"
  shows "int (mathFloorLog 1024 bytes) = \<lfloor>ln (real bytes) / ln 1024\<rfloor>"
proof -
  have "0 \<le> log 1024 (real bytes)"
    using assms by simp
  then have "0 \<le> \<lfloor>log 1024 (real bytes)\<rfloor>" by simp
  then show ?thesis
    using assms by (simp add: mathFloorLog_def floorlog_def log_def)
qed

lemma mathFloorLog_unique:
  assumes "1 < k" "k ^ i \<le> n" "n < k ^ Suc i"
  shows "mathFloorLog k n = i"
proof -
  have "floorlog k n \<le> Suc i" using assms by (simp add: floorlog_le_iff)
  moreover have "\<not> floorlog k n \<le> i" using assms by (simp add: floorlog_le_iff)
  ultimately show ?thesis by (simp add: mathFloorLog_def)
qed

lemma showNat_digit: "n < 10 \<Longrightarrow> showNat n = [digitChar n]"
  by (subst showNat.simps) simp

lemma showFixed_100: "showFixed 2 100 = ''1''"
  by (simp add: showFixed_def showNat_digit padLeft_def stripZeros_def digitChar_def)

lemma startsWith_slash: "startsWith s ''/'' \<longleftrightarrow> (\<exists>t. s = CHR ''/'' # t)"
  by (cases s) (auto simp: startsWith_def)

lemma endsWith_iff: "endsWith s p \<longleftrightarrow> (\<exists>t. s = t @ p)"
proof
  assume a: "endsWith s p"
  then have "s = take (length s - length p) s @ p"
    unfolding endsWith_def by (metis append_take_drop_id)
  then show "\<exists>t. s = t @ p" by blast
next
  assume "\<exists>t. s = t @ p"
  then show "endsWith s p" by (auto simp: endsWith_def)
qed

lemma formatSynoPath_tail:
  "formatSynoPath p =
     (let t = (if startsWith p ''/'' then tl p else p)
      in if t \<noteq> [] \<and> last t = CHR ''/'' then CHR ''/'' # butlast t else CHR ''/'' # t)"
proof (cases "startsWith p ''/''")
  case True
  then obtain t where p: "p = CHR ''/'' # t" by (auto simp: startsWith_slash)
  show ?thesis
  proof (cases t rule: rev_cases)
    case Nil
    with p True show ?thesis by (simp add: formatSynoPath_def endsWith_def)
  next
    case (snoc ys y)
    with p True show ?thesis
      by (auto simp: formatSynoPath_def Let_def endsWith_def butlast_append)
  qed
next
  case False
  show ?thesis
  proof (cases p rule: rev_cases)
    case Nil
    with False show ?thesis by (simp add: formatSynoPath_def endsWith_def)
  next
    case (snoc ys y)
    with False show ?thesis
      by (auto simp: formatSynoPath_def Let_def endsWith_def butlast_append)
  qed
qed

lemma formatSynoPath_leading: "startsWith (formatSynoPath p) ''/''"
  by (simp add: formatSynoPath_tail Let_def startsWith_def)

lemma tail_double: 
  "(endsWith p ''//'' \<and> p \<noteq> ''//'') \<longleftrightarrow> endsWith (if startsWith p ''/'' then tl p else p) ''//''"
proof (cases "startsWith p ''/''")
  case True
  then obtain t where p: "p = CHR ''/'' # t" by (auto simp: startsWith_slash)
  have "(\<exists>u. CHR ''/'' # t = u @ ''//'') \<and> t \<noteq> ''/'' \<longleftrightarrow> (\<exists>u. t = u @ ''//'')"
  proof
    assume "(\<exists>u. CHR ''/'' # t = u @ ''//'') \<and> t \<noteq> ''/''"
    then obtain u where u: "CHR ''/'' # t = u @ ''//''" and n: "t \<noteq> ''/''" by blast
    show "\<exists>u. t = u @ ''//''"
    proof (cases u)
      case Nil with u n show ?thesis by simp
    next
      case (Cons a v) with u show ?thesis by simp
    qed
  next
    assume "\<exists>u. t = u @ ''//''"
    then show "(\<exists>u. CHR ''/'' # t = u @ ''//'') \<and> t \<noteq> ''/''"
      by (metis append_Cons append_is_Nil_conv list.inject list.distinct(1) append_Nil append_eq_Cons_conv)
  qed
  with p True show ?thesis by (simp add: endsWith_iff)
next
  case False
  then have "p \<noteq> ''//''" by (auto simp: startsWith_def)
  with False show ?thesis by simp
qed

lemma ends2_last: "endsWith t ''//'' \<longleftrightarrow> (t \<noteq> [] \<and> last t = CHR ''/'' \<and> butlast t \<noteq> [] \<and> last (butlast t) = CHR ''/'')"
proof
  assume "endsWith t ''//''"
  then obtain u where "t = u @ ''//''" by (auto simp: endsWith_iff)
  then show "t \<noteq> [] \<and> last t = CHR ''/'' \<and> butlast t \<noteq> [] \<and> last (butlast t) = CHR ''/''"
    by (simp add: butlast_append)
next
  assume a: "t \<noteq> [] \<and> last t = CHR ''/'' \<and> butlast t \<noteq> [] \<and> last (butlast t) = CHR ''/''"
  then have "t = butlast t @ ''/''" by (metis append_butlast_last_id)
  moreover from a have "butlast t = butlast (butlast t) @ ''/''" by (metis append_butlast_last_id)
  ultimately have "t = butlast (butlast t) @ ''//''" by (metis append_assoc append_Cons append_Nil)
  then show "endsWith t ''//''" unfolding endsWith_iff by blast
qed

lemma ends1_last: "endsWith t ''/'' \<longleftrightarrow> (t \<noteq> [] \<and> last t = CHR ''/'')"
  by (cases t rule: rev_cases) (auto simp: endsWith_iff)

lemma bad_tail:
  "(endsWith (formatSynoPath p) ''/'' \<and> formatSynoPath p \<noteq> ''/'') \<longleftrightarrow>
     endsWith (if startsWith p ''/'' then tl p else p) ''//''"
proof -
  define t where "t = (if startsWith p ''/'' then tl p else p)"
  have r: "formatSynoPath p =
      (if t \<noteq> [] \<and> last t = CHR ''/'' then CHR ''/'' # butlast t else CHR ''/'' # t)"
    by (simp add: formatSynoPath_tail t_def)
  have "(endsWith (formatSynoPath p) ''/'' \<and> formatSynoPath p \<noteq> ''/'') \<longleftrightarrow> endsWith t ''//''"
    unfolding r ends1_last ends2_last by auto
  then show ?thesis by (simp only: t_def)
qed

lemma bad_iff:
  "(endsWith (formatSynoPath p) ''/'' \<and> formatSynoPath p \<noteq> ''/'') \<longleftrightarrow>
     (endsWith p ''//'' \<and> p \<noteq> ''//'')"
  by (simp only: bad_tail tail_double)

lemma idem_iff:
  "formatSynoPath (formatSynoPath p) = formatSynoPath p \<longleftrightarrow>
     \<not> (endsWith (formatSynoPath p) ''/'' \<and> formatSynoPath p \<noteq> ''/'')"
proof -
  obtain u where u: "formatSynoPath p = CHR ''/'' # u"
    using formatSynoPath_leading[of p] by (auto simp: startsWith_slash)
  have "formatSynoPath (CHR ''/'' # u) =
      (if u \<noteq> [] \<and> last u = CHR ''/'' then CHR ''/'' # butlast u else CHR ''/'' # u)"
    by (simp add: formatSynoPath_tail startsWith_def)
  moreover have "(endsWith (CHR ''/'' # u) ''/'' \<and> CHR ''/'' # u \<noteq> ''/'') \<longleftrightarrow> (u \<noteq> [] \<and> last u = CHR ''/'')"
    by (auto simp: ends1_last)
  moreover have "u \<noteq> [] \<Longrightarrow> butlast u \<noteq> u"
    by (metis append_butlast_last_id append_self_conv not_Cons_self2)
  ultimately show ?thesis unfolding u by auto
qed

text \<open>
  Claim C9. \<^verbatim>\<open>formatBytes(1073741824)\<close> is \<^verbatim>\<open>"1 GB"\<close> and \<^verbatim>\<open>formatBytes(0)\<close> is
  \<^verbatim>\<open>"0 Bytes"\<close> (one argument: \<open>decimals\<close> is its default \<open>2\<close>).
\<close>

theorem formatBytes_examples:
  "formatBytes 1073741824 2 = ''1 GB'' \<and> formatBytes 0 2 = ''0 Bytes''"
proof -
  have i: "mathFloorLog 1024 1073741824 = 3"
    by (rule mathFloorLog_unique) simp_all
  have "formatBytes 1073741824 2 = showFixed 2 100 @ '' '' @ sizes ! 3"
    unfolding formatBytes_def Let_def i by (simp add: sizes_def)
  then have "formatBytes 1073741824 2 = ''1 GB''"
    by (simp add: showFixed_100 sizes_def)
  moreover have "formatBytes 0 2 = ''0 Bytes''"
    by (simp add: formatBytes_def)
  ultimately show ?thesis by simp
qed

text \<open>
  Claim C10, as the code has it. With two or more trailing slashes \<^verbatim>\<open>formatSynoPath\<close>
  removes only one, so the result still ends with a slash and a second application
  changes it: at \<^verbatim>\<open>"a//"\<close> the result is \<^verbatim>\<open>"/a/"\<close>, and formatting that gives \<^verbatim>\<open>"/a"\<close>.
\<close>

theorem formatSynoPath_double_slash_counterexample:
  "endsWith (formatSynoPath ''a//'') ''/'' \<and> formatSynoPath ''a//'' \<noteq> ''/'' \<and>
   formatSynoPath (formatSynoPath ''a//'') \<noteq> formatSynoPath ''a//''"
  by (simp add: formatSynoPath_def startsWith_def endsWith_def)

text \<open>
  Claim C10, amended. For every \<open>p\<close> the result starts with a slash. The result ends
  with a slash without being the root exactly when \<open>p\<close> ends with two slashes and is not
  \<^verbatim>\<open>"//"\<close> itself, and \<^verbatim>\<open>formatSynoPath\<close> is idempotent at \<open>p\<close> exactly in the other case; so
  both hold for every path with at most one trailing slash.
\<close>

theorem formatSynoPath_shape:
  "startsWith (formatSynoPath p) ''/'' \<and>
   ((endsWith (formatSynoPath p) ''/'' \<and> formatSynoPath p \<noteq> ''/'') \<longleftrightarrow>
      (endsWith p ''//'' \<and> p \<noteq> ''//'')) \<and>
   ((formatSynoPath (formatSynoPath p) = formatSynoPath p) \<longleftrightarrow>
      \<not> (endsWith p ''//'' \<and> p \<noteq> ''//''))"
  by (simp only: formatSynoPath_leading bad_iff idem_iff simp_thms)

theorem formatSynoPath_shape_witness:
  "formatSynoPath ''/photos/'' = ''/photos'' \<and>
   startsWith (formatSynoPath ''/photos/'') ''/'' \<and>
   \<not> endsWith (formatSynoPath ''/photos/'') ''/'' \<and>
   formatSynoPath (formatSynoPath ''/photos/'') = formatSynoPath ''/photos/''"
  using formatSynoPath_shape [of "''/photos/''"]
  by (simp add: formatSynoPath_def startsWith_def endsWith_def)

subsection \<open>Session lifecycle\<close>

lemmas io_defs = ret_def throw_def pending_def liftE_def andThen_def tryCatch_def getSid_def
  setSid_def axios_def axiosText_def exchangeWith_def

lemma logout_run:
  "logout env s =
     (Returned (),
      if \<not> truthy (sid s) then s
      else (case env (calls s) (logoutRequest (sid s)) of
              Rejected m \<Rightarrow> s\<lparr>calls := calls s @ [(logoutRequest (sid s), Rejected m)]\<rparr>
            | Resolved b d \<Rightarrow> s\<lparr>calls := calls s @ [(logoutRequest (sid s), Resolved b d)], sid := JNull\<rparr>))"
  by (simp add: logout_def io_defs Let_def split: reply.splits)

lemma synoLogout_run:
  "synoLogout env s =
     (if \<not> truthy (sid s) then (Returned True, s)
      else (case env (calls s) (synoLogoutRequest (sid s)) of
              Rejected m \<Rightarrow> (Returned False, s\<lparr>calls := calls s @ [(synoLogoutRequest (sid s), Rejected m)]\<rparr>)
            | Resolved b d \<Rightarrow>
                if succeeded d
                then (Returned True, s\<lparr>calls := calls s @ [(synoLogoutRequest (sid s), Resolved b d)], sid := JStr []\<rparr>)
                else (Returned False, s\<lparr>calls := calls s @ [(synoLogoutRequest (sid s), Resolved b d)]\<rparr>)))"
  by (simp add: synoLogout_def io_defs Let_def succeeded_def split: reply.splits)

lemma issued_append [simp]: "issued s (s\<lparr>calls := calls s @ xs\<rparr>) = xs"
  by (simp add: issued_def)

lemma issued_append_sid [simp]: "issued s (s\<lparr>calls := calls s @ xs, sid := v\<rparr>) = xs"
  by (simp add: issued_def)

lemma issued_self [simp]: "issued s s = []"
  by (simp add: issued_def)

text \<open>
  Claim C4, amended. In both variants logout never throws. Without a cached session id
  it issues no request and changes nothing. With one it issues exactly one logout
  request; variant A clears the id when the request resolves (whatever the envelope
  says), variant B when the envelope reports success, and the id stays cached when
  the request is rejected (variant B: also on a failure envelope). Once the id is
  cleared, a second logout issues no request.
\<close>

theorem logout_behaviour:
  "fst (logout env s) = Returned () \<and>
   (\<exists>ok. fst (synoLogout env s) = Returned ok) \<and>
   (\<not> truthy (sid s) \<longrightarrow> snd (logout env s) = s \<and> snd (synoLogout env s) = s) \<and>
   (truthy (sid s) \<longrightarrow>
      issued s (snd (logout env s)) =
        [(logoutRequest (sid s), env (calls s) (logoutRequest (sid s)))] \<and>
      sid (snd (logout env s)) =
        (case env (calls s) (logoutRequest (sid s)) of
           Rejected m \<Rightarrow> sid s | Resolved b d \<Rightarrow> JNull) \<and>
      issued s (snd (synoLogout env s)) =
        [(synoLogoutRequest (sid s), env (calls s) (synoLogoutRequest (sid s)))] \<and>
      sid (snd (synoLogout env s)) =
        (case env (calls s) (synoLogoutRequest (sid s)) of
           Rejected m \<Rightarrow> sid s
         | Resolved b d \<Rightarrow> if succeeded d then JStr [] else sid s)) \<and>
   (\<not> truthy (sid (snd (logout env s))) \<longrightarrow>
      snd (logout env (snd (logout env s))) = snd (logout env s)) \<and>
   (\<not> truthy (sid (snd (synoLogout env s))) \<longrightarrow>
      snd (synoLogout env (snd (synoLogout env s))) = snd (synoLogout env s))"
  by (auto simp: logout_run synoLogout_run split: reply.splits)

text \<open>Both logouts against a remote that confirms the logout, from a cached id.\<close>

theorem logout_behaviour_witness:
  "truthy (sid loggedIn) \<and>
   fst (logout (mockRemote 3) loggedIn) = Returned () \<and>
   sid (snd (logout (mockRemote 3) loggedIn)) = JNull \<and>
   length (issued loggedIn (snd (logout (mockRemote 3) loggedIn))) = 1 \<and>
   snd (logout (mockRemote 3) (snd (logout (mockRemote 3) loggedIn))) = snd (logout (mockRemote 3) loggedIn) \<and>
   sid (snd (synoLogout (mockRemote 3) loggedIn)) = JStr []"
  using logout_behaviour [of "mockRemote 3" loggedIn]
  by (simp add: loggedIn_def mockRemote_def succeeded_def okEnvelope_def)

text \<open>
  Claim C4 as stated fails: when the logout request is rejected, the session id
  \<^verbatim>\<open>s0\<close> is still cached after logout in both variants, and two consecutive calls of
  \<^verbatim>\<open>logout\<close> send two logout requests.
\<close>

theorem logout_keeps_token_counterexample:
  "truthy (sid loggedIn) \<and>
   sid (snd (logout (failingAt ''logout'' (mockRemote 3)) loggedIn)) = JStr ''s0'' \<and>
   sid (snd (synoLogout (failingAt ''logout'' (mockRemote 3)) loggedIn)) = JStr ''s0'' \<and>
   length (filter isLogoutCall
     (calls (snd (logout (failingAt ''logout'' (mockRemote 3))
                    (snd (logout (failingAt ''logout'' (mockRemote 3)) loggedIn)))))) = 2"
  by (simp add: logout_run synoLogout_run loggedIn_def failingAt_def param_def logoutRequest_def
        synoLogoutRequest_def entry_def isLogoutCall_def isCall_def)


lemma truthy_member_not_nullish: "truthy (getMember d k) \<Longrightarrow> \<not> nullish d"
  by (cases d) auto

lemma member_str_not_nullish: "getMember d k = JStr t \<Longrightarrow> \<not> nullish d"
  by (cases d) auto

lemma grantsSessionE:
  assumes "grantsSession rep"
  obtains body d t where "rep = Resolved body d" "truthy (getMember d ''success'')"
    "getMember (getMember d ''data'') ''sid'' = JStr t" "t \<noteq> []"
  using assms by (auto simp: grantsSession_def split: reply.splits json.splits)

lemma login_granted:
  assumes "grantsSession (env (calls s) (loginRequest cfg))"
  shows "\<exists>v. truthy v \<and> login cfg env s =
     (if truthy (sid s) then (Returned (sid s), s)
      else (Returned v, s\<lparr>calls := calls s @ [(loginRequest cfg, env (calls s) (loginRequest cfg))],
                           sid := v\<rparr>))"
proof -
  from assms obtain body d t where r: "env (calls s) (loginRequest cfg) = Resolved body d"
    and ok: "truthy (getMember d ''success'')"
    and sidv: "getMember (getMember d ''data'') ''sid'' = JStr t" and t: "t \<noteq> []"
    by (rule grantsSessionE)
  have n1: "\<not> nullish d" using ok by (rule truthy_member_not_nullish)
  have n2: "\<not> nullish (getMember d ''data'')" using sidv by (rule member_str_not_nullish)
  show ?thesis
    by (rule exI[of _ "JStr t"])
       (simp add: login_def io_defs Let_def r ok sidv t n1 n2 readProp_def andThenE_def)
qed

lemma synoLogin_granted:
  assumes "grantsSession (env (calls s) (synoLoginRequest cfg))"
  shows "\<exists>v. truthy v \<and> synoLogin cfg env s =
      (Returned True, s\<lparr>calls := calls s @ [(synoLoginRequest cfg, env (calls s) (synoLoginRequest cfg))],
                           sid := v\<rparr>)"
proof -
  from assms obtain body d t where r: "env (calls s) (synoLoginRequest cfg) = Resolved body d"
    and ok: "truthy (getMember d ''success'')"
    and sidv: "getMember (getMember d ''data'') ''sid'' = JStr t" and t: "t \<noteq> []"
    by (rule grantsSessionE)
  have n1: "\<not> nullish d" using ok by (rule truthy_member_not_nullish)
  have n0: "truthy d" using n1 ok by (cases d) auto
  have n2: "\<not> nullish (getMember d ''data'')" using sidv by (rule member_str_not_nullish)
  show ?thesis
    by (rule exI[of _ "JStr t"])
       (simp add: synoLogin_def io_defs Let_def r ok sidv t n0 n1 n2 readProp_def substringCheck_def)
qed

lemma ensureLogin_granted:
  assumes "grantsSession (env (calls s) (synoLoginRequest cfg))"
  shows "\<exists>v. truthy v \<and> ensureLogin cfg env s =
     (if truthy (sid s) then (Returned True, s)
      else (Returned True, s\<lparr>calls := calls s @ [(synoLoginRequest cfg, env (calls s) (synoLoginRequest cfg))],
                           sid := v\<rparr>))"
proof -
  from synoLogin_granted[of env s cfg, OF assms] obtain v where v: "truthy v"
    and l: "synoLogin cfg env s =
      (Returned True, s\<lparr>calls := calls s @ [(synoLoginRequest cfg, env (calls s) (synoLoginRequest cfg))],
                           sid := v\<rparr>)" by blast
  show ?thesis
    by (rule exI[of _ v]) (simp add: ensureLogin_def andThen_def getSid_def ret_def l v)
qed

text \<open>
  Claim C5. Against a remote that grants every login request (valid credentials),
  \<^verbatim>\<open>login\<close> (variant A) and \<^verbatim>\<open>ensureLogin\<close> (variant B) return, the second of two calls in
  a row returns the cached id without touching the state, and the two calls together
  issue at most one login request.
\<close>

theorem session_reuse:
  assumes "\<forall>h. grantsSession (env h (loginRequest cfg))"
    and "\<forall>h. grantsSession (env h (synoLoginRequest cfg))"
  shows "(\<exists>v. fst (login cfg env s) = Returned v \<and> truthy v) \<and>
         login cfg env (snd (login cfg env s)) =
           (Returned (sid (snd (login cfg env s))), snd (login cfg env s)) \<and>
         length (filter isLoginCall
           (issued s (snd (login cfg env (snd (login cfg env s)))))) \<le> 1 \<and>
         fst (ensureLogin cfg env s) = Returned True \<and>
         ensureLogin cfg env (snd (ensureLogin cfg env s)) =
           (Returned True, snd (ensureLogin cfg env s)) \<and>
         length (filter isLoginCall
           (issued s (snd (ensureLogin cfg env (snd (ensureLogin cfg env s)))))) \<le> 1"
proof -
  from assms(1) have a: "grantsSession (env (calls s) (loginRequest cfg))" by blast
  from login_granted[of env s cfg, OF a] obtain v where v: "truthy v" and
    l: "login cfg env s = (if truthy (sid s) then (Returned (sid s), s)
      else (Returned v, s\<lparr>calls := calls s @ [(loginRequest cfg, env (calls s) (loginRequest cfg))],
                           sid := v\<rparr>))" by blast
  have s1: "truthy (sid (snd (login cfg env s)))" using v l by simp
  have again: "login cfg env (snd (login cfg env s)) =
           (Returned (sid (snd (login cfg env s))), snd (login cfg env s))"
    using s1 by (simp add: login_def io_defs)
  from assms(2) have b: "grantsSession (env (calls s) (synoLoginRequest cfg))" by blast
  from ensureLogin_granted[of env s cfg, OF b] obtain w where w: "truthy w" and
    e: "ensureLogin cfg env s = (if truthy (sid s) then (Returned True, s)
      else (Returned True, s\<lparr>calls := calls s @ [(synoLoginRequest cfg, env (calls s) (synoLoginRequest cfg))],
                           sid := w\<rparr>))" by blast
  have s2: "truthy (sid (snd (ensureLogin cfg env s)))" using w e by simp
  have again2: "ensureLogin cfg env (snd (ensureLogin cfg env s)) =
           (Returned True, snd (ensureLogin cfg env s))"
    using s2 by (simp add: ensureLogin_def io_defs)
  show ?thesis
    unfolding again again2 using v w by (auto simp: l e)
qed

text \<open>The same against \<open>mockRemote\<close>, starting logged out.\<close>

theorem session_reuse_witness:
  "(\<forall>h. grantsSession (mockRemote 3 h (loginRequest admin))) \<and>
   (\<forall>h. grantsSession (mockRemote 3 h (synoLoginRequest admin))) \<and>
   fst (login admin (mockRemote 3) loggedOut) = Returned (JStr ''s1'') \<and>
   length (filter isLoginCall
      (issued loggedOut (snd (login admin (mockRemote 3) (snd (login admin (mockRemote 3) loggedOut)))))) \<le> 1 \<and>
   length (filter isLoginCall
      (issued loggedOut (snd (ensureLogin admin (mockRemote 3) (snd (ensureLogin admin (mockRemote 3) loggedOut)))))) \<le> 1"
proof -
  have a: "\<forall>h. grantsSession (mockRemote 3 h (loginRequest admin))"
    by (simp add: grantsSession_def mockRemote_def loginRequest_def param_def okEnvelope_def)
  have b: "\<forall>h. grantsSession (mockRemote 3 h (synoLoginRequest admin))"
    by (simp add: grantsSession_def mockRemote_def synoLoginRequest_def param_def okEnvelope_def)
  have c: "fst (login admin (mockRemote 3) loggedOut) = Returned (JStr ''s1'')"
    by (simp add: login_def io_defs Let_def loggedOut_def mockRemote_def loginRequest_def
          param_def okEnvelope_def readProp_def andThenE_def)
  from session_reuse [OF a b, of loggedOut] a b c show ?thesis by blast
qed

subsection \<open>The search protocol\<close>

lemma axios_run:
  "axios env r s =
     (case env (calls s) r of
        Rejected m \<Rightarrow> (Thrown (AxiosError m), s\<lparr>calls := calls s @ [(r, Rejected m)]\<rparr>)
      | Resolved b d \<Rightarrow> (Returned d, s\<lparr>calls := calls s @ [(r, Resolved b d)]\<rparr>))"
  by (simp add: axios_def exchangeWith_def Let_def split: reply.splits)

lemma reportsFinished_dataField:
  "reportsFinished (r, Resolved b d) =
     (case dataField d ''finished'' of Inl e \<Rightarrow> False | Inr fin \<Rightarrow> truthy fin)"
  by (simp add: reportsFinished_def dataField_def readProp_def andThenE_def optProp_def)

lemma not_reportsFinished_Rejected [simp]: "\<not> reportsFinished (r, Rejected m)"
  by (simp add: reportsFinished_def)

lemma searchRequest_kind [simp]:
  "isSearch m (searchRequest m' t sv, rep) = (m = m')"
  "taskOf (searchRequest m' t sv, rep) = t"
  by (auto simp: isSearch_def isCall_def param_def searchRequest_def entry_def taskOf_def)

lemma finishA:
  assumes "andThen (axios env (searchRequest ''list'' t sv)) (\<lambda>res.
           andThen (liftE (searchResultText kw path res)) (\<lambda>result.
           andThen (axios env (searchRequest ''stop'' t sv)) (\<lambda>stopped. ret result))) s = (out, s')"
  shows "out \<noteq> Pending \<and>
         (\<exists>li. isSearch ''list'' li \<and> taskOf li = t \<and>
            ((calls s' = calls s @ [li] \<and> (\<forall>r. out \<noteq> Returned r)) \<or>
             (\<exists>sp. isSearch ''stop'' sp \<and> taskOf sp = t \<and> calls s' = calls s @ [li, sp])))"
  using assms
  by (auto simp: andThen_def axios_run liftE_def ret_def split: reply.splits sum.splits)


lemma searchLoop_Suc:
  "searchLoop (Suc n) env t sv kw path s =
     (case env (calls s) (searchRequest ''status'' t sv) of
        Rejected m \<Rightarrow> (Thrown (AxiosError m),
                        s\<lparr>calls := calls s @ [(searchRequest ''status'' t sv, Rejected m)]\<rparr>)
      | Resolved b d \<Rightarrow>
         (case dataField d ''finished'' of
            Inl e \<Rightarrow> (Thrown e, s\<lparr>calls := calls s @ [(searchRequest ''status'' t sv, Resolved b d)]\<rparr>)
          | Inr fin \<Rightarrow>
              if truthy fin then
                andThen (axios env (searchRequest ''list'' t sv)) (\<lambda>res.
                andThen (liftE (searchResultText kw path res)) (\<lambda>result.
                andThen (axios env (searchRequest ''stop'' t sv)) (\<lambda>stopped. ret result)))
                  (s\<lparr>calls := calls s @ [(searchRequest ''status'' t sv, Resolved b d)]\<rparr>)
              else searchLoop n env t sv kw path
                  (s\<lparr>calls := calls s @ [(searchRequest ''status'' t sv, Resolved b d)]\<rparr>)))"
proof (cases "env (calls s) (searchRequest ''status'' t sv)")
  case (Rejected m)
  then show ?thesis
    by (subst searchLoop.simps) (simp add: andThen_def axios_run)
next
  case (Resolved b d)
  show ?thesis
  proof (cases "dataField d ''finished''")
    case (Inl e)
    with Resolved show ?thesis
      by (subst searchLoop.simps) (simp add: andThen_def axios_run liftE_def)
  next
    case (Inr fin)
    with Resolved show ?thesis
      by (subst searchLoop.simps) (simp add: andThen_def axios_run liftE_def)
  qed
qed



lemma traceI:
  assumes "calls s' = calls s @ pre @ tail" "searchShape t pre tail"
    "out = Pending \<longrightarrow> tail = [] \<and> length pre = fuel \<and> (\<forall>x \<in> set pre. \<not> reportsFinished x)"
    "(\<exists>r. out = Returned r) \<longrightarrow> (\<exists>li sp. tail = [li, sp])"
  shows "\<exists>pre tail. calls s' = calls s @ pre @ tail \<and> searchShape t pre tail \<and>
     (out = Pending \<longrightarrow> tail = [] \<and> length pre = fuel \<and> (\<forall>x \<in> set pre. \<not> reportsFinished x)) \<and>
     ((\<exists>r. out = Returned r) \<longrightarrow> (\<exists>li sp. tail = [li, sp]))"
  apply (rule exI[of _ pre])
  apply (rule exI[of _ tail])
  using assms apply (intro conjI)
     apply assumption+
  done

lemma shape_polls: "isSearch ''status'' x \<Longrightarrow> taskOf x = t \<Longrightarrow> searchShape t [x] []"
  by (simp add: searchShape_def)

lemma shape_list:
  "isSearch ''status'' x \<Longrightarrow> taskOf x = t \<Longrightarrow> reportsFinished x \<Longrightarrow>
   isSearch ''list'' li \<Longrightarrow> taskOf li = t \<Longrightarrow> searchShape t [x] [li]"
  by (cases li) (simp add: searchShape_def)

lemma shape_stop:
  "isSearch ''status'' x \<Longrightarrow> taskOf x = t \<Longrightarrow> reportsFinished x \<Longrightarrow>
   isSearch ''list'' li \<Longrightarrow> taskOf li = t \<Longrightarrow> isSearch ''stop'' sp \<Longrightarrow> taskOf sp = t \<Longrightarrow>
   searchShape t [x] [li, sp]"
  by (cases li; cases sp) (simp add: searchShape_def)

lemma shape_cons:
  "isSearch ''status'' x \<Longrightarrow> taskOf x = t \<Longrightarrow> searchShape t pre tail \<Longrightarrow>
   searchShape t (x # pre) tail"
  by (cases "pre = []") (simp_all add: searchShape_def)

lemma searchLoop_trace:
  "searchLoop fuel env t sv kw path s = (out, s') \<Longrightarrow>
   \<exists>pre tail. calls s' = calls s @ pre @ tail \<and> searchShape t pre tail \<and>
     (out = Pending \<longrightarrow> tail = [] \<and> length pre = fuel \<and> (\<forall>x \<in> set pre. \<not> reportsFinished x)) \<and>
     ((\<exists>r. out = Returned r) \<longrightarrow> (\<exists>li sp. tail = [li, sp]))"
proof (induction fuel arbitrary: s)
  case 0
  then have "out = Pending" "s' = s" by (simp_all add: pending_def)
  then show ?case by (intro traceI[of _ _ "[]" "[]"]) (simp_all add: searchShape_def)
next
  case (Suc n)
  define st where "st = searchRequest ''status'' t sv"
  define x where "x = (st, env (calls s) st)"
  define s1 where "s1 = s\<lparr>calls := calls s @ [x]\<rparr>"
  have st: "isSearch ''status'' x" "taskOf x = t" by (simp_all add: x_def st_def)
  have c1: "calls s1 = calls s @ [x]" by (simp add: s1_def)
  have run: "(case env (calls s) st of
        Rejected m \<Rightarrow> (Thrown (AxiosError m), s\<lparr>calls := calls s @ [(st, Rejected m)]\<rparr>)
      | Resolved b d \<Rightarrow>
         (case dataField d ''finished'' of
            Inl e \<Rightarrow> (Thrown e, s\<lparr>calls := calls s @ [(st, Resolved b d)]\<rparr>)
          | Inr fin \<Rightarrow>
              if truthy fin then
                andThen (axios env (searchRequest ''list'' t sv)) (\<lambda>res.
                andThen (liftE (searchResultText kw path res)) (\<lambda>result.
                andThen (axios env (searchRequest ''stop'' t sv)) (\<lambda>stopped. ret result)))
                  (s\<lparr>calls := calls s @ [(st, Resolved b d)]\<rparr>)
              else searchLoop n env t sv kw path
                  (s\<lparr>calls := calls s @ [(st, Resolved b d)]\<rparr>))) = (out, s')"
    using Suc.prems by (simp only: searchLoop_Suc st_def)
  show ?case
  proof (cases "env (calls s) st")
    case (Rejected m)
    with run have o: "out = Thrown (AxiosError m)" and "s' = s1"
      by (simp_all add: s1_def x_def)
    then have "calls s' = calls s @ [x] @ []" using c1 by simp
    then show ?thesis using o st
      by (intro traceI[of _ _ "[x]" "[]"]) (simp_all add: shape_polls)
  next
    case (Resolved b d)
    show ?thesis
    proof (cases "dataField d ''finished''")
      case (Inl e)
      with Resolved run have o: "out = Thrown e" and "s' = s1"
        by (simp_all add: s1_def x_def)
      then have "calls s' = calls s @ [x] @ []" using c1 by simp
      then show ?thesis using o st
        by (intro traceI[of _ _ "[x]" "[]"]) (simp_all add: shape_polls)
    next
      case (Inr fin)
      have xr: "x = (st, Resolved b d)" using Resolved by (simp add: x_def)
      show ?thesis
      proof (cases "truthy fin")
        case True
        then have rf: "reportsFinished x"
          using Inr by (simp add: xr reportsFinished_dataField)
        from run Resolved Inr True
        have "andThen (axios env (searchRequest ''list'' t sv)) (\<lambda>res.
           andThen (liftE (searchResultText kw path res)) (\<lambda>result.
           andThen (axios env (searchRequest ''stop'' t sv)) (\<lambda>stopped. ret result))) s1 = (out, s')"
          by (simp add: s1_def xr)
        from finishA[OF this] have np: "out \<noteq> Pending"
          and ex: "\<exists>li. isSearch ''list'' li \<and> taskOf li = t \<and>
            ((calls s' = calls s1 @ [li] \<and> (\<forall>r. out \<noteq> Returned r)) \<or>
             (\<exists>sp. isSearch ''stop'' sp \<and> taskOf sp = t \<and> calls s' = calls s1 @ [li, sp]))"
          by simp_all
        from ex obtain li where li: "isSearch ''list'' li" "taskOf li = t"
          and alt: "(calls s' = calls s1 @ [li] \<and> (\<forall>r. out \<noteq> Returned r)) \<or>
             (\<exists>sp. isSearch ''stop'' sp \<and> taskOf sp = t \<and> calls s' = calls s1 @ [li, sp])"
          by (elim exE conjE)
        from alt show ?thesis
        proof (elim disjE conjE exE)
          assume a: "calls s' = calls s1 @ [li]" and nr: "\<forall>r. out \<noteq> Returned r"
          have c: "calls s' = calls s @ [x] @ [li]" using a c1 by simp
          show ?thesis using c np nr shape_list[OF st rf li]
            by (intro traceI[of _ _ "[x]" "[li]"]) simp_all
        next
          fix sp assume sp: "isSearch ''stop'' sp" "taskOf sp = t"
            and a: "calls s' = calls s1 @ [li, sp]"
          have c: "calls s' = calls s @ [x] @ [li, sp]" using a c1 by simp
          show ?thesis using c np shape_stop[OF st rf li sp]
            by (intro traceI[of _ _ "[x]" "[li, sp]"]) simp_all
        qed
      next
        case False
        then have nrf: "\<not> reportsFinished x"
          using Inr by (simp add: xr reportsFinished_dataField)
        from run Resolved Inr False
        have "searchLoop n env t sv kw path s1 = (out, s')"
          by (simp add: s1_def xr)
        from Suc.IH[OF this] obtain pre tail where
          c: "calls s' = calls s1 @ pre @ tail" and sh: "searchShape t pre tail"
          and p: "out = Pending \<longrightarrow> tail = [] \<and> length pre = n \<and> (\<forall>x \<in> set pre. \<not> reportsFinished x)"
          and r: "(\<exists>r. out = Returned r) \<longrightarrow> (\<exists>li sp. tail = [li, sp])"
          by (elim exE conjE)
        have sh': "searchShape t (x # pre) tail"
          using st sh by (rule shape_cons)
        have c': "calls s' = calls s @ (x # pre) @ tail" using c c1 by simp
        have p': "out = Pending \<longrightarrow> tail = [] \<and> length (x # pre) = Suc n \<and>
                   (\<forall>y \<in> set (x # pre). \<not> reportsFinished y)"
          using p nrf by simp
        from c' sh' p' r show ?thesis by (rule traceI)
      qed
    qed
  qed
qed

lemma kinds_distinct:
  "isSearch m x \<Longrightarrow> isSearch m' x \<Longrightarrow> m = m'"
  by (auto simp: isSearch_def isCall_def)

lemma shape_cases:
  assumes sh: "searchShape t pre tail"
  obtains (empty) "tail = []"
    | (list) li where "pre \<noteq> []" "reportsFinished (last pre)" "isSearch ''list'' li" "taskOf li = t" "tail = [li]"
    | (stop) li sp where "pre \<noteq> []" "reportsFinished (last pre)" "isSearch ''list'' li" "taskOf li = t"
        "isSearch ''stop'' sp" "taskOf sp = t" "tail = [li, sp]"
  using sh unfolding searchShape_def by blast


lemma no_occurrence:
  assumes "\<forall>x \<in> set xs. \<not> P x" "xs = ys @ x # zs" "P x"
  shows False
  using assms by auto

lemma order_empty:
  assumes nols: "\<forall>x \<in> set xs. \<not> isSearch ''list'' x \<and> \<not> isSearch ''stop'' x"
  shows "protocolOrder xs"
proof -
  have "filter (isSearch ''stop'') xs = []" using nols by (simp add: filter_empty_conv)
  then show ?thesis
    unfolding protocolOrder_def using nols by (auto dest: no_occurrence[of _ "isSearch ''list''"] no_occurrence[of _ "isSearch ''stop''"])
qed


lemma order_from_shape:
  assumes no: "\<forall>x \<in> set pre0. \<not> isSearch ''status'' x \<and> \<not> isSearch ''list'' x \<and> \<not> isSearch ''stop'' x"
    and sh: "searchShape t pre tail"
  shows "protocolOrder (pre0 @ pre @ tail)"
proof -
  have pre: "\<forall>x \<in> set pre. isSearch ''status'' x \<and> taskOf x = t"
    using sh by (simp add: searchShape_def)
  have nols: "\<forall>x \<in> set (pre0 @ pre). \<not> isSearch ''list'' x \<and> \<not> isSearch ''stop'' x"
  proof
    fix x assume "x \<in> set (pre0 @ pre)"
    then consider "x \<in> set pre0" | "x \<in> set pre" by auto
    then show "\<not> isSearch ''list'' x \<and> \<not> isSearch ''stop'' x"
    proof cases
      case 1 with no show ?thesis by blast
    next
      case 2
      with pre have "isSearch ''status'' x" by blast
      then show ?thesis using kinds_distinct[of "''status''" x] by fastforce
    qed
  qed
  from sh show ?thesis
  proof (cases rule: shape_cases)
    case empty
    with order_empty[OF nols] show ?thesis by simp
  next
    case (list li)
    let ?ys = "pre0 @ pre"
    have lastin: "last pre \<in> set ?ys" using list(1) by simp
    have lp: "isSearch ''status'' (last pre)" "taskOf (last pre) = t"
      using pre list(1) by (simp_all)
    have nostop: "filter (isSearch ''stop'') (?ys @ [li]) = []"
      using nols list(3) kinds_distinct[of "''list''" li "''stop''"]
      by (auto simp: filter_empty_conv)
    have pos: "\<And>as x bs. ?ys @ [li] = as @ x # bs \<Longrightarrow> isSearch ''list'' x \<Longrightarrow> as = ?ys"
    proof -
      fix as x bs assume e: "?ys @ [li] = as @ x # bs" and l: "isSearch ''list'' x"
      show "as = ?ys"
      proof (cases bs rule: rev_cases)
        case Nil
        with e show ?thesis by simp
      next
        case (snoc cs c)
        with e have "?ys = as @ x # cs" by (metis append_assoc append_Cons butlast_snoc)
        then have "x \<in> set ?ys" by simp
        with nols l show ?thesis by blast
      qed
    qed
    have nost: "\<And>as x bs. ?ys @ [li] = as @ x # bs \<Longrightarrow> \<not> isSearch ''stop'' x"
      using nostop by (metis filter_empty_conv in_set_conv_decomp)
    show ?thesis
      unfolding protocolOrder_def list(5) append_assoc[symmetric]
    proof (intro conjI allI impI)
      fix as x bs assume "?ys @ [li] = as @ x # bs \<and> isSearch ''stop'' x"
      then show "\<exists>l\<in>set as. isSearch ''list'' l \<and> taskOf l = taskOf x"
        using nost by blast
    next
      show "length (filter (isSearch ''stop'') (?ys @ [li])) \<le> 1" using nostop by simp
    next
      fix as x bs assume a: "?ys @ [li] = as @ x # bs \<and> isSearch ''list'' x"
      then have as: "as = ?ys" using pos by blast
      with a have "x = li" by simp
      then show "\<exists>p\<in>set as. isSearch ''status'' p \<and> taskOf p = taskOf x \<and> reportsFinished p"
        using as lastin lp list(2,4) by auto
    qed
  next
    case (stop li sp)
    let ?ys = "pre0 @ pre"
    have lastin: "last pre \<in> set ?ys" using stop(1) by simp
    have lp: "isSearch ''status'' (last pre)" "taskOf (last pre) = t"
      using pre stop(1) by (simp_all)
    have lins: "\<not> isSearch ''stop'' li" using stop(3) kinds_distinct[of "''list''" li "''stop''"] by auto
    have spnl: "\<not> isSearch ''list'' sp" using stop(5) kinds_distinct[of "''list''" sp "''stop''"] by auto
    have one: "filter (isSearch ''stop'') (?ys @ [li, sp]) = [sp]"
      using nols lins stop(5) by (auto simp: filter_empty_conv)
    have dec: "\<And>as x bs. ?ys @ [li, sp] = as @ x # bs \<Longrightarrow>
        x \<in> set ?ys \<or> (as = ?ys \<and> x = li) \<or> (as = ?ys @ [li] \<and> x = sp)"
    proof -
      fix as x bs assume e: "?ys @ [li, sp] = as @ x # bs"
      show "x \<in> set ?ys \<or> (as = ?ys \<and> x = li) \<or> (as = ?ys @ [li] \<and> x = sp)"
      proof (cases bs rule: rev_cases)
        case Nil
        with e have "(?ys @ [li]) @ [sp] = as @ [x]" by simp
        then show ?thesis by (metis append1_eq_conv)
      next
        case (snoc cs c)
        with e have e2: "(?ys @ [li]) @ [sp] = (as @ x # cs) @ [c]" by simp
        then have e3: "?ys @ [li] = as @ x # cs" by (metis append1_eq_conv)
        show ?thesis
        proof (cases cs rule: rev_cases)
          case Nil
          with e3 have "?ys @ [li] = as @ [x]" by simp
          then show ?thesis by (metis append1_eq_conv)
        next
          case (snoc ds d)
          with e3 have "?ys @ [li] = (as @ x # ds) @ [d]" by simp
          then have "?ys = as @ x # ds" by (metis append1_eq_conv)
          then have "x \<in> set ?ys" by simp
          then show ?thesis by blast
        qed
      qed
    qed
    show ?thesis
      unfolding protocolOrder_def stop(7) append_assoc[symmetric]
    proof (intro conjI allI impI)
      fix as x bs assume a: "?ys @ [li, sp] = as @ x # bs \<and> isSearch ''stop'' x"
      with dec[of as x bs] nols lins have "as = ?ys @ [li] \<and> x = sp" by blast
      then show "\<exists>l\<in>set as. isSearch ''list'' l \<and> taskOf l = taskOf x"
        using stop(3,4,6) by auto
    next
      show "length (filter (isSearch ''stop'') (?ys @ [li, sp])) \<le> 1" using one by simp
    next
      fix as x bs assume a: "?ys @ [li, sp] = as @ x # bs \<and> isSearch ''list'' x"
      with dec[of as x bs] nols spnl have "as = ?ys \<and> x = li" by blast
      then show "\<exists>p\<in>set as. isSearch ''status'' p \<and> taskOf p = taskOf x \<and> reportsFinished p"
        using lastin lp stop(2,4) by auto
    qed
  qed
qed

end
